theory Spec2Isabelle
  imports Main "HOL-Library.List_Lexorder"
begin

section \<open>Python values used by \<^verbatim>\<open>scripts/generate_ai_videos.py\<close>\<close>

subsection \<open>Strings\<close>

text \<open>
  A Python \<^verbatim>\<open>str\<close> is a sequence of Unicode code points, so a character is a natural
  number and a string a list of them. \<open>py\<close> embeds a literal. Strings are compared as
  Python compares them: lexicographically by code point (the order of
  \<^verbatim>\<open>HOL-Library.List_Lexorder\<close>).
\<close>

type_synonym pychar = nat
type_synonym pystr = "pychar list"

definition py :: "string \<Rightarrow> pystr" where
  "py s = map of_char s"

text \<open>
  \<^verbatim>\<open>str.isspace\<close> of one character, which is what \<^verbatim>\<open>str.strip()\<close> removes: the
  code points CPython lists as whitespace.
\<close>

definition isspace :: "pychar \<Rightarrow> bool" where
  "isspace c \<longleftrightarrow> c \<in> set [9, 10, 11, 12, 13, 28, 29, 30, 31, 32, 133, 160, 5760,
      8192, 8193, 8194, 8195, 8196, 8197, 8198, 8199, 8200, 8201, 8202,
      8232, 8233, 8239, 8287, 12288]"

definition strip :: "pystr \<Rightarrow> pystr" where
  "strip s = rev (dropWhile isspace (rev (dropWhile isspace s)))"

text \<open>\<^verbatim>\<open>s.replace(old, new)\<close> for one-character \<open>old\<close> and \<open>new\<close>.\<close>

definition replace :: "pychar \<Rightarrow> pychar \<Rightarrow> pystr \<Rightarrow> pystr" where
  "replace old new s = map (\<lambda>c. if c = old then new else c) s"

text \<open>
  \<^verbatim>\<open>str.isalnum\<close> is the Python runtime's (its Unicode database decides it), so the
  program takes it from outside. \<open>isalnum_ascii\<close> is what it answers on ASCII text; it is
  used where a run is evaluated on ASCII names.
\<close>

definition isalnum_ascii :: "pychar \<Rightarrow> bool" where
  "isalnum_ascii c \<longleftrightarrow>
     (48 \<le> c \<and> c \<le> 57) \<or> (65 \<le> c \<and> c \<le> 90) \<or> (97 \<le> c \<and> c \<le> 122)"

text \<open>\<^verbatim>\<open>str(n)\<close> of a non-negative integer, and of any integer.\<close>

fun str_nat :: "nat \<Rightarrow> pystr" where
  "str_nat n = (if n < 10 then [48 + n] else str_nat (n div 10) @ [48 + n mod 10])"

declare str_nat.simps [simp del]

definition str_int :: "int \<Rightarrow> pystr" where
  "str_int i = (if i < 0 then 45 # str_nat (nat (- i)) else str_nat (nat i))"

text \<open>The format \<^verbatim>\<open>{i:04d}\<close> of a non-negative \<open>i\<close>: zero-padded to at least four digits.\<close>

definition format_04d :: "nat \<Rightarrow> pystr" where
  "format_04d i = replicate (4 - length (str_nat i)) 48 @ str_nat i"

text \<open>
  Line 111, \<^verbatim>\<open>a or b or 'planet'\<close> on optional strings: the first operand that is neither
  \<^verbatim>\<open>None\<close> nor empty, else the last one.
\<close>

fun first_truthy :: "pystr option list \<Rightarrow> pystr \<Rightarrow> pystr" where
  "first_truthy [] d = d"
| "first_truthy (None # r) d = first_truthy r d"
| "first_truthy (Some s # r) d = (if s \<noteq> [] then s else first_truthy r d)"

subsection \<open>Paths and the file system\<close>

text \<open>
  A \<^verbatim>\<open>pathlib.Path\<close> is the list of its components, relative to the current directory.
  \<open>joinpath\<close> is \<^verbatim>\<open>p / s\<close> for a string \<open>s\<close> without a separator, as at every use in the
  script: joining the empty string gives \<open>p\<close> itself.
\<close>

type_synonym path = "pystr list"

definition joinpath :: "path \<Rightarrow> pystr \<Rightarrow> path" where
  "joinpath p s = (if s = [] then p else p @ [s])"

datatype node = Dir | File nat

text \<open>
  The file system is an association list from paths to nodes (a file holds opaque
  content); the current directory \<open>[]\<close> always exists.
\<close>

type_synonym filesystem = "(path \<times> node) list"

text \<open>
  What the script and its libraries raise: the three \<^verbatim>\<open>RuntimeError\<close>s of the script (lines
  89, 93 and 58), a failure of the model library while loading or sampling, a catalog that
  cannot be read or parsed, a failed command (\<^verbatim>\<open>check=True\<close>), and the errors of the file
  system. All of them are \<^verbatim>\<open>Exception\<close>s, so \<^verbatim>\<open>except Exception\<close> catches each.
\<close>

datatype error =
    Diffusers_Not_Installed
  | Token_Required
  | Ffmpeg_Not_Found
  | Model_Load_Error
  | Data_Load_Error
  | Pipeline_Error
  | CalledProcessError
  | FileNotFoundError
  | NotADirectoryError
  | IsADirectoryError
  | FileExistsError

definition exists_path :: "filesystem \<Rightarrow> path \<Rightarrow> bool" where
  "exists_path fs p \<longleftrightarrow> p = [] \<or> map_of fs p \<noteq> None"

definition is_dir :: "filesystem \<Rightarrow> path \<Rightarrow> bool" where
  "is_dir fs p \<longleftrightarrow> p = [] \<or> map_of fs p = Some Dir"

definition children :: "filesystem \<Rightarrow> path \<Rightarrow> path list" where
  "children fs d = remdups (filter (\<lambda>q. q \<noteq> [] \<and> butlast q = d) (map fst fs))"

definition iterdir :: "filesystem \<Rightarrow> path \<Rightarrow> error + path list" where
  "iterdir fs d =
     (if \<not> exists_path fs d then Inl FileNotFoundError
      else if \<not> is_dir fs d then Inl NotADirectoryError
      else Inr (children fs d))"

definition remove_entry :: "path \<Rightarrow> filesystem \<Rightarrow> filesystem" where
  "remove_entry p fs = filter (\<lambda>e. fst e \<noteq> p) fs"

definition unlink :: "filesystem \<Rightarrow> path \<Rightarrow> error + filesystem" where
  "unlink fs p =
     (case map_of fs p of
        None \<Rightarrow> Inl FileNotFoundError
      | Some Dir \<Rightarrow> Inl IsADirectoryError
      | Some (File c) \<Rightarrow> Inr (remove_entry p fs))"

text \<open>
  \<^verbatim>\<open>p.mkdir(parents=True, exist_ok=True)\<close>: every missing directory on the way to \<open>p\<close> is
  created; a file in the way raises. \<open>mkdirs fs pre cs\<close> has reached \<open>pre\<close> and still has
  the components \<open>cs\<close> to go.
\<close>

fun mkdirs :: "filesystem \<Rightarrow> path \<Rightarrow> pystr list \<Rightarrow> error + filesystem" where
  "mkdirs fs pre [] = Inr fs"
| "mkdirs fs pre (c # cs) =
     (case map_of fs (pre @ [c]) of
        None \<Rightarrow> mkdirs ((pre @ [c], Dir) # fs) (pre @ [c]) cs
      | Some Dir \<Rightarrow> mkdirs fs (pre @ [c]) cs
      | Some (File x) \<Rightarrow> Inl (if cs = [] then FileExistsError else NotADirectoryError))"

definition mkdir :: "filesystem \<Rightarrow> path \<Rightarrow> error + filesystem" where
  "mkdir fs p = mkdirs fs [] p"

text \<open>\<^verbatim>\<open>image.save(path)\<close>: the file is created or overwritten in an existing directory.\<close>

definition write_file :: "filesystem \<Rightarrow> path \<Rightarrow> nat \<Rightarrow> error + filesystem" where
  "write_file fs p c =
     (if p = [] \<or> map_of fs p = Some Dir then Inl IsADirectoryError
      else if \<not> exists_path fs (butlast p) then Inl FileNotFoundError
      else if \<not> is_dir fs (butlast p) then Inl NotADirectoryError
      else Inr ((p, File c) # remove_entry p fs))"

section \<open>The world outside the script\<close>

datatype device = Cuda | Cpu

text \<open>An argument of a command line: a literal string, or \<^verbatim>\<open>str(path)\<close>.\<close>

datatype arg = Lit pystr | Str_Path path

text \<open>
  The loaded pipeline, called as
  \<^verbatim>\<open>pipeline(frame_prompt, width=, height=, num_inference_steps=, generator=)\<close> with the
  generator \<^verbatim>\<open>torch.Generator(device=device).manual_seed(s)\<close>: it returns an image
  (opaque pixel data) or raises (\<open>None\<close>).
\<close>

type_synonym pipeline = "pystr \<Rightarrow> int \<Rightarrow> int \<Rightarrow> nat \<Rightarrow> device \<Rightarrow> int \<Rightarrow> nat option"

text \<open>
  A record of the catalog is a JSON object, read with \<^verbatim>\<open>planet.get(key)\<close>: a dictionary.
  The script reads its name fields, taken here to hold strings when present.
\<close>

type_synonym planet = "pystr \<rightharpoonup> pystr"

text \<open>
  What the script observes of its environment:
  \<^item> \<open>str_isalnum\<close>: \<^verbatim>\<open>str.isalnum\<close> of a character;
  \<^item> \<open>diffusers_installed\<close>: whether the import at lines 42-46 succeeded
    (\<^verbatim>\<open>StableDiffusionPipeline is not None\<close>);
  \<^item> \<open>environ\<close>: \<^verbatim>\<open>os.environ\<close>;
  \<^item> \<open>cuda_is_available\<close>: \<^verbatim>\<open>torch.cuda.is_available()\<close>;
  \<^item> \<open>from_pretrained\<close>: \<^verbatim>\<open>StableDiffusionPipeline.from_pretrained(model_id, ...)\<close>, which
    raises (\<open>None\<close>) or returns a model whose \<^verbatim>\<open>.to(device)\<close> raises or gives the pipeline;
  \<^item> \<open>json_load\<close>: opening and parsing the catalog file (\<open>None\<close>: it raises);
  \<^item> \<open>subprocess_run\<close>: \<^verbatim>\<open>subprocess.run(cmd, check=True)\<close>: whether the command
    succeeded, and the file system it leaves.
\<close>

record env =
  str_isalnum :: "pychar \<Rightarrow> bool"
  diffusers_installed :: bool
  environ :: "pystr \<rightharpoonup> pystr"
  cuda_is_available :: bool
  from_pretrained :: "pystr \<Rightarrow> (device \<Rightarrow> pipeline option) option"
  json_load :: "pystr \<Rightarrow> planet list option"
  subprocess_run :: "arg list \<Rightarrow> filesystem \<Rightarrow> bool \<times> filesystem"

text \<open>The parsed command line (lines 141-150).\<close>

record args =
  data :: pystr
  outdir :: path
  frames :: int
  fps :: int
  width :: int
  height :: int
  model :: pystr
  limit :: int

text \<open>
  What a run does, in order: its prints and its calls to the model library, the encoder
  and the image writer. \<open>From_Pretrained\<close> is a model-load attempt, \<open>Pipeline_Call\<close> the
  generation of one frame, \<open>Run\<close> a \<^verbatim>\<open>subprocess.run\<close>.
\<close>

datatype event =
    Print_Device device
  | Print_Loading_Model
  | From_Pretrained pystr
  | Run "arg list"
  | Print_Generating pystr path
  | Pipeline_Call pystr int int nat device int
  | Image_Save path
  | Print_Frame_Failed pystr
  | Print_Assembling path
  | Print_Saved_Video path
  | Print_Assemble_Failed pystr
  | Print_All_Done path

record state =
  files :: filesystem
  trace :: "event list"

definition emit :: "event \<Rightarrow> state \<Rightarrow> state" where
  "emit ev st = st\<lparr>trace := trace st @ [ev]\<rparr>"

section \<open>The script\<close>

text \<open>Line 112: the file-system-safe identifier of a name.\<close>

definition safe_name :: "(pychar \<Rightarrow> bool) \<Rightarrow> pystr \<Rightarrow> pystr" where
  "safe_name isalnum name =
     replace 32 95 (strip (filter (\<lambda>c. isalnum c \<or> c \<in> {32, 45, 95}) name))"

text \<open>Lines 54-58.\<close>

definition ffmpeg_version :: "arg list" where
  "ffmpeg_version = [Lit (py ''ffmpeg''), Lit (py ''-version'')]"

definition ensure_ffmpeg :: "env \<Rightarrow> state \<Rightarrow> error option \<times> state" where
  "ensure_ffmpeg e st =
     (case subprocess_run e ffmpeg_version (files st) of
        (ok, fs') \<Rightarrow>
          (if ok then None else Some Ffmpeg_Not_Found,
           emit (Run ffmpeg_version) (st\<lparr>files := fs'\<rparr>)))"

text \<open>Lines 61-75. \<open>frames_loop\<close> is the loop of line 69 over \<^verbatim>\<open>enumerate(seeds)\<close> from index \<open>i\<close>.\<close>

definition frame_prompt :: "pystr \<Rightarrow> nat \<Rightarrow> pystr" where
  "frame_prompt prompt i =
     prompt @ py '', cinematic, ultra-detailed, wide shot, subtle camera movement, frame ''
       @ str_nat (i + 1)"

definition frame_name :: "nat \<Rightarrow> pystr" where
  "frame_name i = py ''frame_'' @ format_04d i @ py ''.png''"

fun frames_loop ::
  "pipeline \<Rightarrow> pystr \<Rightarrow> path \<Rightarrow> int \<Rightarrow> int \<Rightarrow> device \<Rightarrow> nat \<Rightarrow> int list \<Rightarrow> state
     \<Rightarrow> error option \<times> state" where
  "frames_loop pipeline prompt out_dir w h device i [] st = (None, st)"
| "frames_loop pipeline prompt out_dir w h device i (s # seeds) st =
     (let st1 = emit (Pipeline_Call (frame_prompt prompt i) w h 20 device s) st in
      case pipeline (frame_prompt prompt i) w h 20 device s of
        None \<Rightarrow> (Some Pipeline_Error, st1)
      | Some img \<Rightarrow>
          (let frame_path = joinpath out_dir (frame_name i);
               st2 = emit (Image_Save frame_path) st1 in
           case write_file (files st2) frame_path img of
             Inl err \<Rightarrow> (Some err, st2)
           | Inr fs' \<Rightarrow>
               frames_loop pipeline prompt out_dir w h device (Suc i) seeds
                 (st2\<lparr>files := fs'\<rparr>)))"

definition default_seeds :: "int \<Rightarrow> int list" where
  "default_seeds num_frames = map (\<lambda>i. 1000 + int i * 7) [0..<nat num_frames]"

definition make_frames_for_prompt ::
  "pipeline \<Rightarrow> pystr \<Rightarrow> path \<Rightarrow> int \<Rightarrow> int \<Rightarrow> int \<Rightarrow> device \<Rightarrow> int list option \<Rightarrow> state
     \<Rightarrow> error option \<times> state" where
  "make_frames_for_prompt pipeline prompt out_dir num_frames w h device seeds st =
     (case mkdir (files st) out_dir of
        Inl err \<Rightarrow> (Some err, st)
      | Inr fs1 \<Rightarrow>
          frames_loop pipeline prompt out_dir w h device 0
            (case seeds of None \<Rightarrow> default_seeds num_frames | Some ss \<Rightarrow> ss)
            (st\<lparr>files := fs1\<rparr>))"

text \<open>Lines 78-84.\<close>

definition ffmpeg_cmd :: "path \<Rightarrow> path \<Rightarrow> int \<Rightarrow> arg list" where
  "ffmpeg_cmd frames_dir out_path frame_rate =
     [Lit (py ''ffmpeg''), Lit (py ''-y''), Lit (py ''-framerate''), Lit (str_int frame_rate),
      Lit (py ''-i''), Str_Path (joinpath frames_dir (py ''frame_%04d.png'')),
      Lit (py ''-c:v''), Lit (py ''libx264''), Lit (py ''-pix_fmt''), Lit (py ''yuv420p''),
      Lit (py ''-movflags''), Lit (py ''+faststart''), Str_Path out_path]"

definition assemble_video :: "env \<Rightarrow> path \<Rightarrow> path \<Rightarrow> int \<Rightarrow> state \<Rightarrow> error option \<times> state" where
  "assemble_video e frames_dir out_path frame_rate st =
     (case subprocess_run e (ffmpeg_cmd frames_dir out_path frame_rate) (files st) of
        (ok, fs') \<Rightarrow>
          (if ok then None else Some CalledProcessError,
           emit (Run (ffmpeg_cmd frames_dir out_path frame_rate)) (st\<lparr>files := fs'\<rparr>)))"

text \<open>Lines 110-136, the body of the loop over the catalog, in its three steps.\<close>

definition planet_name :: "planet \<Rightarrow> pystr" where
  "planet_name planet =
     first_truthy [planet (py ''pl_name''), planet (py ''name'')] (py ''planet'')"

definition planet_prompt :: "pystr \<Rightarrow> pystr" where
  "planet_prompt name =
     py ''A cinematic, highly detailed landscape of the exoplanet named '' @ name @
     py ''. Alien terrain, dramatic sky, vibrant colors, photorealistic''"

text \<open>Lines 117-119: \<^verbatim>\<open>for f in frames_dir.iterdir(): f.unlink()\<close>.\<close>

fun unlink_all :: "path list \<Rightarrow> filesystem \<Rightarrow> error option \<times> filesystem" where
  "unlink_all [] fs = (None, fs)"
| "unlink_all (f # rest) fs =
     (case unlink fs f of
        Inl err \<Rightarrow> (Some err, fs)
      | Inr fs' \<Rightarrow> unlink_all rest fs')"

text \<open>Lines 115-122: the record's working directory is emptied and (re)created.\<close>

definition prepare_frames_dir :: "path \<Rightarrow> pystr \<Rightarrow> state \<Rightarrow> error option \<times> state" where
  "prepare_frames_dir frames_dir name st =
     (case (if exists_path (files st) frames_dir
            then (case iterdir (files st) frames_dir of
                    Inl err \<Rightarrow> (Some err, files st)
                  | Inr fl \<Rightarrow> unlink_all fl (files st))
            else (None, files st)) of
        (Some err, fs1) \<Rightarrow> (Some err, st\<lparr>files := fs1\<rparr>)
      | (None, fs1) \<Rightarrow>
          (case mkdir fs1 frames_dir of
             Inl err \<Rightarrow> (Some err, st\<lparr>files := fs1\<rparr>)
           | Inr fs2 \<Rightarrow> (None, emit (Print_Generating name frames_dir) (st\<lparr>files := fs2\<rparr>))))"

text \<open>Lines 129-135, after the frames were made.\<close>

definition out_mp4 :: "path \<Rightarrow> pystr \<Rightarrow> path" where
  "out_mp4 out_base safe = joinpath out_base (safe @ py ''.mp4'')"

definition assemble_step :: "env \<Rightarrow> args \<Rightarrow> path \<Rightarrow> path \<Rightarrow> pystr \<Rightarrow> pystr \<Rightarrow> state \<Rightarrow> state" where
  "assemble_step e a out_base frames_dir name safe st =
     (case assemble_video e frames_dir (out_mp4 out_base safe) (fps a)
             (emit (Print_Assembling (out_mp4 out_base safe)) st) of
        (None, st') \<Rightarrow> emit (Print_Saved_Video (out_mp4 out_base safe)) st'
      | (Some err, st') \<Rightarrow> emit (Print_Assemble_Failed name) st')"

definition process_planet ::
  "env \<Rightarrow> args \<Rightarrow> pipeline \<Rightarrow> device \<Rightarrow> path \<Rightarrow> path \<Rightarrow> planet \<Rightarrow> state
     \<Rightarrow> error option \<times> state" where
  "process_planet e a pipe device out_base working planet st =
     (let name = planet_name planet;
          safe = safe_name (str_isalnum e) name;
          prompt = planet_prompt name;
          frames_dir = joinpath working safe in
      case prepare_frames_dir frames_dir name st of
        (Some err, st1) \<Rightarrow> (Some err, st1)
      | (None, st1) \<Rightarrow>
          (case make_frames_for_prompt pipe prompt frames_dir (frames a) (width a) (height a)
                  device None st1 of
             (Some err, st2) \<Rightarrow> (None, emit (Print_Frame_Failed name) st2)
           | (None, st2) \<Rightarrow> (None, assemble_step e a out_base frames_dir name safe st2)))"

fun planets_loop ::
  "env \<Rightarrow> args \<Rightarrow> pipeline \<Rightarrow> device \<Rightarrow> path \<Rightarrow> path \<Rightarrow> planet list \<Rightarrow> state
     \<Rightarrow> error option \<times> state" where
  "planets_loop e a pipe device out_base working [] st = (None, st)"
| "planets_loop e a pipe device out_base working (planet # rest) st =
     (case process_planet e a pipe device out_base working planet st of
        (Some err, st') \<Rightarrow> (Some err, st')
      | (None, st') \<Rightarrow> planets_loop e a pipe device out_base working rest st')"

text \<open>Lines 87-137. Line 91, \<^verbatim>\<open>a or b\<close>: the first value unless it is \<^verbatim>\<open>None\<close> or empty.\<close>

definition hf_token :: "env \<Rightarrow> pystr option" where
  "hf_token e =
     (case environ e (py ''HUGGINGFACE_TOKEN'') of
        None \<Rightarrow> environ e (py ''HF_TOKEN'')
      | Some t \<Rightarrow> if t \<noteq> [] then Some t else environ e (py ''HF_TOKEN''))"

definition working_dir :: path where
  "working_dir = [py ''.cache_video_frames'']"

definition generate_videos :: "env \<Rightarrow> args \<Rightarrow> state \<Rightarrow> error option \<times> state" where
  "generate_videos e a st =
     (if \<not> diffusers_installed e then (Some Diffusers_Not_Installed, st)
      else if hf_token e = None \<or> hf_token e = Some [] then (Some Token_Required, st)
      else
        (let device = (if cuda_is_available e then Cuda else Cpu);
             st1 = emit (From_Pretrained (model a))
                     (emit Print_Loading_Model (emit (Print_Device device) st)) in
         case from_pretrained e (model a) of
           None \<Rightarrow> (Some Model_Load_Error, st1)
         | Some loaded \<Rightarrow>
             (case loaded device of
                None \<Rightarrow> (Some Model_Load_Error, st1)
              | Some pipe \<Rightarrow>
                  (case json_load e (data a) of
                     None \<Rightarrow> (Some Data_Load_Error, st1)
                   | Some planets \<Rightarrow>
                       (case ensure_ffmpeg e st1 of
                          (Some err, st2) \<Rightarrow> (Some err, st2)
                        | (None, st2) \<Rightarrow>
                            (case mkdir (files st2) working_dir of
                               Inl err \<Rightarrow> (Some err, st2)
                             | Inr fs3 \<Rightarrow>
                                 (case planets_loop e a pipe device (outdir a) working_dir
                                         planets (st2\<lparr>files := fs3\<rparr>) of
                                    (Some err, st4) \<Rightarrow> (Some err, st4)
                                  | (None, st4) \<Rightarrow>
                                      (None, emit (Print_All_Done (outdir a)) st4))))))))"

text \<open>
  Lines 88-108 once more, for the statements: the pipeline, the device, the catalog and the
  state with which the loop of line 110 starts, when the run gets that far
  (\<open>generate_videos_loop\<close> below shows that \<open>generate_videos\<close> then runs the loop from
  there).
\<close>

definition loop_entry :: "env \<Rightarrow> args \<Rightarrow> state \<Rightarrow> (pipeline \<times> device \<times> planet list \<times> state) option" where
  "loop_entry e a st =
     (if \<not> diffusers_installed e then None
      else if hf_token e = None \<or> hf_token e = Some [] then None
      else
        (let device = (if cuda_is_available e then Cuda else Cpu);
             st1 = emit (From_Pretrained (model a))
                     (emit Print_Loading_Model (emit (Print_Device device) st)) in
         case from_pretrained e (model a) of
           None \<Rightarrow> None
         | Some loaded \<Rightarrow>
             (case loaded device of
                None \<Rightarrow> None
              | Some pipe \<Rightarrow>
                  (case json_load e (data a) of
                     None \<Rightarrow> None
                   | Some planets \<Rightarrow>
                       (case ensure_ffmpeg e st1 of
                          (Some err, st2) \<Rightarrow> None
                        | (None, st2) \<Rightarrow>
                            (case mkdir (files st2) working_dir of
                               Inl err \<Rightarrow> None
                             | Inr fs3 \<Rightarrow> Some (pipe, device, planets, st2\<lparr>files := fs3\<rparr>)))))))"

subsection \<open>Reading a trace\<close>

fun is_model_load :: "event \<Rightarrow> bool" where
  "is_model_load (From_Pretrained m) = True"
| "is_model_load ev = False"

fun is_pipeline_call :: "event \<Rightarrow> bool" where
  "is_pipeline_call (Pipeline_Call p w h n d s) = True"
| "is_pipeline_call ev = False"

fun is_run :: "event \<Rightarrow> bool" where
  "is_run (Run c) = True"
| "is_run ev = False"

text \<open>
  The records attempted (the print of line 122), the seeds and prompts given to the model,
  the frames saved (line 74) and the videos saved (line 133).
\<close>

fun attempted :: "event list \<Rightarrow> pystr list" where
  "attempted [] = []"
| "attempted (Print_Generating name d # evs) = name # attempted evs"
| "attempted (ev # evs) = attempted evs"

fun seeds_used :: "event list \<Rightarrow> int list" where
  "seeds_used [] = []"
| "seeds_used (Pipeline_Call p w h n d s # evs) = s # seeds_used evs"
| "seeds_used (ev # evs) = seeds_used evs"

fun prompts_used :: "event list \<Rightarrow> pystr list" where
  "prompts_used [] = []"
| "prompts_used (Pipeline_Call p w h n d s # evs) = p # prompts_used evs"
| "prompts_used (ev # evs) = prompts_used evs"

fun frames_saved :: "event list \<Rightarrow> path list" where
  "frames_saved [] = []"
| "frames_saved (Image_Save p # evs) = p # frames_saved evs"
| "frames_saved (ev # evs) = frames_saved evs"

fun videos_saved :: "event list \<Rightarrow> path list" where
  "videos_saved [] = []"
| "videos_saved (Print_Saved_Video p # evs) = p # videos_saved evs"
| "videos_saved (ev # evs) = videos_saved evs"

text \<open>The events a call added to the trace, from the state before it and the state after it.\<close>

definition new_events :: "state \<Rightarrow> state \<Rightarrow> event list" where
  "new_events st st' = drop (length (trace st)) (trace st')"

subsection \<open>Reading names and file systems\<close>

text \<open>
  The number a string of decimal digits denotes, as the encoder reads the index back
  from a name matching \<^verbatim>\<open>frame_%04d.png\<close>.
\<close>

definition digits_value :: "pystr \<Rightarrow> nat" where
  "digits_value ds = foldl (\<lambda>a c. 10 * a + (c - 48)) 0 ds"

text \<open>
  A file system as an operating system keeps it: every entry lies in a directory.
\<close>

definition well_formed :: "filesystem \<Rightarrow> bool" where
  "well_formed fs \<longleftrightarrow> list_all (\<lambda>e. fst e \<noteq> [] \<and> is_dir fs (butlast (fst e))) fs"

subsection \<open>Concrete runs\<close>

text \<open>
  A small world in which to run the script: a model that returns an image for every call
  (its content stands for the seed), an encoder that is installed and succeeds, a token in
  the environment, an empty current directory, and the catalog
  \<^verbatim>\<open>[{"name": "Kepler-10b"}, {"name": "??bad/name"}]\<close>, run with
  \<^verbatim>\<open>--frames 2 --fps 12 --limit 1\<close>.
\<close>

definition demo_pipeline :: pipeline where
  "demo_pipeline p w h n d s = Some (nat s)"

definition demo_state :: state where
  "demo_state = \<lparr>files = [], trace = []\<rparr>"

definition demo_catalog :: "planet list" where
  "demo_catalog = [[py ''name'' \<mapsto> py ''Kepler-10b''], [py ''name'' \<mapsto> py ''??bad/name'']]"

definition demo_env :: env where
  "demo_env =
     \<lparr>str_isalnum = isalnum_ascii, diffusers_installed = True,
      environ = [py ''HF_TOKEN'' \<mapsto> py ''secret''], cuda_is_available = False,
      from_pretrained = (\<lambda>m. Some (\<lambda>d. Some demo_pipeline)),
      json_load = (\<lambda>p. Some demo_catalog),
      subprocess_run = (\<lambda>cmd fs. (True, fs))\<rparr>"

definition demo_args :: args where
  "demo_args =
     \<lparr>data = py ''planets.json'', outdir = [py ''out''], frames = 2, fps = 12,
      width = 64, height = 64, model = py ''runwayml/stable-diffusion-v1-5'', limit = 1\<rparr>"

text \<open>The same world without the encoder: every \<^verbatim>\<open>subprocess.run\<close> raises.\<close>

definition no_ffmpeg_env :: env where
  "no_ffmpeg_env = demo_env\<lparr>subprocess_run := (\<lambda>cmd fs. (False, fs))\<rparr>"


text \<open>
  A file system left by an earlier run: the working directory of \<^verbatim>\<open>Kepler-10b\<close> still
  holds a frame.
\<close>

definition stale_state :: state where
  "stale_state =
     \<lparr>files = [([py ''.cache_video_frames'', py ''Kepler-10b'', py ''frame_0007.png''], File 7),
               ([py ''.cache_video_frames'', py ''Kepler-10b''], Dir),
               ([py ''.cache_video_frames''], Dir)],
      trace = []\<rparr>"

text \<open>
  The state with which the loop starts when the example run begins in \<open>stale_state\<close>.
\<close>

definition stale_loop_state :: state where
  "stale_loop_state =
     \<lparr>files = files stale_state,
      trace = [Print_Device Cpu, Print_Loading_Model,
               From_Pretrained (py ''runwayml/stable-diffusion-v1-5''), Run ffmpeg_version]\<rparr>"



section \<open>Properties of the script's parts\<close>

subsection \<open>Name sanitization\<close>

lemma set_strip: "set (strip s) \<subseteq> set s"
proof -
  have "set (dropWhile isspace (rev (dropWhile isspace s))) \<subseteq> set (rev (dropWhile isspace s))"
    by (meson set_dropWhileD subsetI)
  moreover have "set (dropWhile isspace s) \<subseteq> set s"
    by (meson set_dropWhileD subsetI)
  ultimately show ?thesis by (auto simp: strip_def)
qed

lemma dropWhile_none: "\<forall>c\<in>set s. \<not> P c \<Longrightarrow> dropWhile P s = s"
  by (cases s) auto

lemma strip_id: "\<forall>c\<in>set s. \<not> isspace c \<Longrightarrow> strip s = s"
  by (simp add: strip_def dropWhile_none)

lemma replace_id: "old \<notin> set s \<Longrightarrow> replace old new s = s"
  by (induction s) (auto simp: replace_def)

lemma isspace_32: "isspace 32" and not_isspace_45: "\<not> isspace 45" and not_isspace_95: "\<not> isspace 95"
  by (simp_all add: isspace_def)

lemma safe_name_chars:
  assumes "c \<in> set (safe_name isalnum s)"
  shows "c \<noteq> 32 \<and> (isalnum c \<or> c = 45 \<or> c = 95)"
proof -
  let ?f = "filter (\<lambda>c. isalnum c \<or> c \<in> {32, 45, 95}) s"
  from assms obtain d where d: "d \<in> set (strip ?f)" and c: "c = (if d = 32 then 95 else d)"
    by (auto simp: safe_name_def replace_def)
  from d set_strip have "d \<in> set ?f" by blast
  then have "isalnum d \<or> d \<in> {32, 45, 95}" by simp
  with c show ?thesis by auto
qed

lemma isalnum_ascii_not_space: "isalnum_ascii c \<Longrightarrow> \<not> isspace c"
  by (auto simp: isalnum_ascii_def isspace_def)

subsection \<open>Frame names\<close>

lemma replicate_small:
  "replicate 3 x = [x, x, x]" "replicate 2 x = [x, x]" "replicate (Suc 0) x = [x]"
  by (simp_all add: numeral_3_eq_3 numeral_2_eq_2)

lemma format_04d_digits:
  assumes "i < 10000"
  shows "format_04d i = [48 + i div 1000, 48 + i div 100 mod 10, 48 + i div 10 mod 10, 48 + i mod 10]"
proof -
  consider "i < 10" | "10 \<le> i" "i < 100" | "100 \<le> i" "i < 1000" | "1000 \<le> i" by linarith
  then show ?thesis
  proof cases
    case 1
    then show ?thesis by (simp add: format_04d_def str_nat.simps [of i] replicate_small)
  next
    case 2
    then have "i div 10 < 10" "i div 100 = 0" "i div 1000 = 0" by auto
    with 2 show ?thesis
      by (simp add: format_04d_def str_nat.simps [of i] str_nat.simps [of "i div 10"] replicate_small)
  next
    case 3
    then have a: "\<not> i div 10 < 10" "i div 10 div 10 < 10" "i div 1000 = 0" by auto
    have b: "i div 10 div 10 = i div 100" by (simp add: div_mult2_eq)
    from 3 a b show ?thesis
      by (simp add: format_04d_def str_nat.simps [of i] str_nat.simps [of "i div 10"]
          str_nat.simps [of "i div 100"] replicate_small)
  next
    case 4
    with assms have a: "\<not> i < 10" "\<not> i div 10 < 10" "\<not> i div 10 div 10 < 10" "i div 10 div 10 div 10 < 10"
      by auto
    have b: "i div 10 div 10 = i div 100" "i div 10 div 10 div 10 = i div 1000"
      by (simp_all add: div_mult2_eq)
    from a b show ?thesis
      by (simp add: format_04d_def str_nat.simps [of i] str_nat.simps [of "i div 10"]
          str_nat.simps [of "i div 100"] str_nat.simps [of "i div 1000"])
  qed
qed

lemma decimal_combine:
  fixes i :: nat
  assumes "i = 10 * q1 + d0" "q1 = 10 * q2 + d1" "q2 = 10 * q3 + d2"
  shows "i = 1000 * q3 + 100 * d2 + 10 * d1 + d0"
  using assms by simp

lemma decimal_split:
  fixes i :: nat
  shows "i = 1000 * (i div 1000) + 100 * (i div 100 mod 10) + 10 * (i div 10 mod 10) + i mod 10"
proof -
  have e: "i div 10 div 10 = i div 100" "i div 100 div 10 = i div 1000"
    by (simp_all add: div_mult2_eq)
  have "i = 10 * (i div 10) + i mod 10" by simp
  moreover have "i div 10 = 10 * (i div 100) + i div 10 mod 10"
    unfolding e [symmetric] by simp
  moreover have "i div 100 = 10 * (i div 1000) + i div 100 mod 10"
    unfolding e [symmetric] by simp
  ultimately show ?thesis by (rule decimal_combine)
qed

lemma frame_name_less:
  assumes "i < 10000" "j < 10000"
  shows "frame_name i < frame_name j \<longleftrightarrow> i < j"
proof -
  define a b c d where "a = i div 1000" and "b = i div 100 mod 10" and "c = i div 10 mod 10" and "d = i mod 10"
  define a' b' c' d' where "a' = j div 1000" and "b' = j div 100 mod 10" and "c' = j div 10 mod 10" and "d' = j mod 10"
  have i: "i = 1000 * a + 100 * b + 10 * c + d"
    unfolding a_def b_def c_def d_def by (rule decimal_split)
  have bi: "b < 10" "c < 10" "d < 10"
    unfolding b_def c_def d_def by simp_all
  have j: "j = 1000 * a' + 100 * b' + 10 * c' + d'"
    unfolding a'_def b'_def c'_def d'_def by (rule decimal_split)
  have bj: "b' < 10" "c' < 10" "d' < 10"
    unfolding b'_def c'_def d'_def by simp_all
  have "frame_name i < frame_name j \<longleftrightarrow>
        a < a' \<or> a = a' \<and> (b < b' \<or> b = b' \<and> (c < c' \<or> c = c' \<and> d < d'))"
    using assms
    by (simp add: frame_name_def format_04d_digits py_def a_def b_def c_def d_def
        a'_def b'_def c'_def d'_def)
  also have "\<dots> \<longleftrightarrow> i < j"
    unfolding i j using bi bj by linarith
  finally show ?thesis .
qed

lemma digits_value_snoc: "digits_value (ds @ [c]) = 10 * digits_value ds + (c - 48)"
  by (simp add: digits_value_def)

lemma digits_value_str_nat: "digits_value (str_nat n) = n"
proof (induction n rule: str_nat.induct)
  case (1 n)
  show ?case
  proof (cases "n < 10")
    case True
    then show ?thesis by (simp add: str_nat.simps [of n] digits_value_def)
  next
    case False
    with 1 have "digits_value (str_nat (n div 10)) = n div 10" by simp
    with False show ?thesis
      by (simp add: str_nat.simps [of n] digits_value_snoc)
  qed
qed

lemma foldl_zeros: "foldl (\<lambda>a c. 10 * a + (c - 48)) 0 (replicate k (48::nat)) = (0::nat)"
  by (induction k) simp_all

lemma digits_value_format_04d: "digits_value (format_04d i) = i"
proof -
  have "digits_value (format_04d i) = digits_value (str_nat i)"
    by (simp add: format_04d_def digits_value_def foldl_zeros)
  then show ?thesis by (simp add: digits_value_str_nat)
qed

lemma format_04d_inj: "format_04d i = format_04d j \<Longrightarrow> i = j"
  by (metis digits_value_format_04d)

lemma frame_name_inj: "frame_name i = frame_name j \<Longrightarrow> i = j"
  by (simp add: frame_name_def format_04d_inj)

lemma frame_name_not_empty: "frame_name i \<noteq> []"
  by (simp add: frame_name_def py_def)

lemma frame_path_inj: "joinpath d (frame_name i) = joinpath d (frame_name j) \<Longrightarrow> i = j"
  by (simp add: joinpath_def frame_name_not_empty frame_name_inj)

subsection \<open>The trace of the frame sampler\<close>

lemma seeds_used_append: "seeds_used (xs @ ys) = seeds_used xs @ seeds_used ys"
  by (induction xs rule: seeds_used.induct) simp_all

lemma prompts_used_append: "prompts_used (xs @ ys) = prompts_used xs @ prompts_used ys"
  by (induction xs rule: prompts_used.induct) simp_all

lemma frames_saved_append: "frames_saved (xs @ ys) = frames_saved xs @ frames_saved ys"
  by (induction xs rule: frames_saved.induct) simp_all


lemma new_events_append: "trace st' = trace st @ evs \<Longrightarrow> new_events st st' = evs"
  by (simp add: new_events_def)

lemma trace_emit [simp]: "trace (emit ev st) = trace st @ [ev]"
  by (simp add: emit_def)

lemma files_emit [simp]: "files (emit ev st) = files st"
  by (simp add: emit_def)

lemma frames_loop_events:
  "frames_loop pipeline prompt out_dir w h device i seeds st = (r, st') \<Longrightarrow>
   \<exists>evs k k'. trace st' = trace st @ evs \<and> k' \<le> k \<and> k \<le> length seeds \<and>
      seeds_used evs = take k seeds \<and>
      prompts_used evs = map (\<lambda>j. frame_prompt prompt (i + j)) [0..<k] \<and>
      frames_saved evs = map (\<lambda>j. joinpath out_dir (frame_name (i + j))) [0..<k'] \<and>
      filter is_run evs = [] \<and> attempted evs = [] \<and> videos_saved evs = [] \<and>
      filter is_model_load evs = [] \<and>
      (r = None \<longrightarrow> k = length seeds \<and> k' = length seeds)"
proof (induction seeds arbitrary: i st)
  case Nil
  then show ?case by auto
next
  case (Cons s seeds)
  let ?pc = "Pipeline_Call (frame_prompt prompt i) w h 20 device s"
  let ?fp = "joinpath out_dir (frame_name i)"
  show ?case
  proof (cases "pipeline (frame_prompt prompt i) w h 20 device s")
    case None
    with Cons.prems have "trace st' = trace st @ [?pc]" "r \<noteq> None"
      by (auto simp: Let_def)
    then show ?thesis
      by (intro exI [of _ "[?pc]"] exI [of _ "Suc 0"] exI [of _ 0]) auto
  next
    case (Some img)
    show ?thesis
    proof (cases "write_file (files st) ?fp img")
      case (Inl err)
      with Some Cons.prems have "trace st' = trace st @ [?pc, Image_Save ?fp]" "r \<noteq> None"
        by (auto simp: Let_def)
      then show ?thesis
        by (intro exI [of _ "[?pc, Image_Save ?fp]"] exI [of _ "Suc 0"] exI [of _ "Suc 0"]) auto
    next
      case (Inr fs')
      let ?st2 = "(emit (Image_Save ?fp) (emit ?pc st))\<lparr>files := fs'\<rparr>"
      from Some Inr Cons.prems
      have "frames_loop pipeline prompt out_dir w h device (Suc i) seeds ?st2 = (r, st')"
        by (simp add: Let_def)
      from Cons.IH [OF this] obtain evs k k' where
        ih: "trace st' = trace ?st2 @ evs" "k' \<le> k" "k \<le> length seeds"
          "seeds_used evs = take k seeds"
          "prompts_used evs = map (\<lambda>j. frame_prompt prompt (Suc i + j)) [0..<k]"
          "frames_saved evs = map (\<lambda>j. joinpath out_dir (frame_name (Suc i + j))) [0..<k']"
          "filter is_run evs = []" "attempted evs = []" "videos_saved evs = []"
          "filter is_model_load evs = []"
          "r = None \<longrightarrow> k = length seeds \<and> k' = length seeds"
        by blast
      from ih show ?thesis
        by (intro exI [of _ "?pc # Image_Save ?fp # evs"] exI [of _ "Suc k"] exI [of _ "Suc k'"])
           (simp add: map_upt_Suc del: upt_Suc)
    qed
  qed
qed

lemma make_frames_events:
  assumes "make_frames_for_prompt pipeline prompt out_dir n w h device seeds st = (r, st')"
  shows "\<exists>k k'. k' \<le> k \<and> trace st' = trace st @ new_events st st' \<and>
      k \<le> length (case seeds of None \<Rightarrow> default_seeds n | Some ss \<Rightarrow> ss) \<and>
      seeds_used (new_events st st') = take k (case seeds of None \<Rightarrow> default_seeds n | Some ss \<Rightarrow> ss) \<and>
      prompts_used (new_events st st') = map (frame_prompt prompt) [0..<k] \<and>
      frames_saved (new_events st st') = map (\<lambda>j. joinpath out_dir (frame_name j)) [0..<k'] \<and>
      filter is_run (new_events st st') = [] \<and> attempted (new_events st st') = [] \<and>
      videos_saved (new_events st st') = [] \<and>
      filter is_model_load (new_events st st') = [] \<and>
      (r = None \<longrightarrow> k = length (case seeds of None \<Rightarrow> default_seeds n | Some ss \<Rightarrow> ss) \<and>
                    k' = length (case seeds of None \<Rightarrow> default_seeds n | Some ss \<Rightarrow> ss))"
proof (cases "mkdir (files st) out_dir")
  case (Inl err)
  with assms have "st' = st" "r = Some err"
    by (auto simp: make_frames_for_prompt_def)
  then show ?thesis
    by (intro exI [of _ 0]) (simp add: new_events_def)
next
  case (Inr fs1)
  let ?ss = "case seeds of None \<Rightarrow> default_seeds n | Some ss \<Rightarrow> ss"
  from Inr assms
  have "frames_loop pipeline prompt out_dir w h device 0 ?ss (st\<lparr>files := fs1\<rparr>) = (r, st')"
    by (simp add: make_frames_for_prompt_def)
  from frames_loop_events [OF this] obtain evs k k' where
    e: "trace st' = trace st @ evs" "k' \<le> k" "k \<le> length ?ss"
      "seeds_used evs = take k ?ss"
      "prompts_used evs = map (\<lambda>j. frame_prompt prompt (0 + j)) [0..<k]"
      "frames_saved evs = map (\<lambda>j. joinpath out_dir (frame_name (0 + j))) [0..<k']"
      "filter is_run evs = []" "attempted evs = []" "videos_saved evs = []"
          "filter is_model_load evs = []"
      "r = None \<longrightarrow> k = length ?ss \<and> k' = length ?ss"
    by auto
  from e(1) have "new_events st st' = evs" by (rule new_events_append)
  with e show ?thesis
    by (intro exI [of _ k] exI [of _ k']) simp
qed

lemma default_seeds_nth: "i < length (default_seeds n) \<Longrightarrow> default_seeds n ! i = 1000 + 7 * int i"
  by (simp add: default_seeds_def)

lemma length_default_seeds: "length (default_seeds n) = nat n"
  by (simp add: default_seeds_def)

subsection \<open>The files of the frame sampler\<close>

lemma frame_name_eq_iff [simp]: "frame_name i = frame_name j \<longleftrightarrow> i = j"
  using frame_name_inj by blast

lemma joinpath_frame [simp]: "joinpath d (frame_name i) = d @ [frame_name i]"
  by (simp add: joinpath_def frame_name_not_empty)

lemma map_of_remove_entry: "map_of (remove_entry p fs) q = (if q = p then None else map_of fs q)"
  by (induction fs) (auto simp: remove_entry_def)

lemma write_file_map_of:
  "write_file fs p c = Inr fs' \<Longrightarrow> map_of fs' q = (if q = p then Some (File c) else map_of fs q)"
  by (auto simp: write_file_def map_of_remove_entry split: if_splits)

lemma unlink_map_of:
  "unlink fs p = Inr fs' \<Longrightarrow> map_of fs' q = (if q = p then None else map_of fs q)"
  by (auto simp: unlink_def map_of_remove_entry split: option.splits node.splits)

lemma unlink_all_map_of:
  "unlink_all ps fs = (None, fs') \<Longrightarrow> map_of fs' q = (if q \<in> set ps then None else map_of fs q)"
proof (induction ps arbitrary: fs)
  case Nil
  then show ?case by simp
next
  case (Cons p ps)
  then obtain fs1 where u: "unlink fs p = Inr fs1" and r: "unlink_all ps fs1 = (None, fs')"
    by (auto split: sum.splits)
  from Cons.IH [OF r] unlink_map_of [OF u] show ?case by auto
qed

lemma children_set:
  "set (children fs d) = {q. q \<noteq> [] \<and> butlast q = d \<and> map_of fs q \<noteq> None}"
  by (auto simp: children_def map_of_eq_None_iff image_iff)

lemma children_empty_iff:
  "children fs d = [] \<longleftrightarrow> (\<forall>q. q \<noteq> [] \<and> butlast q = d \<longrightarrow> map_of fs q = None)"
proof -
  have "children fs d = [] \<longleftrightarrow> set (children fs d) = {}" by simp
  also have "\<dots> \<longleftrightarrow> (\<forall>q. q \<noteq> [] \<and> butlast q = d \<longrightarrow> map_of fs q = None)"
    unfolding children_set by auto
  finally show ?thesis .
qed

lemma mkdirs_map_of:
  "mkdirs fs pre cs = Inr fs' \<Longrightarrow> length q > length pre + length cs \<Longrightarrow> map_of fs' q = map_of fs q"
proof (induction cs arbitrary: fs pre)
  case Nil
  then show ?case by simp
next
  case (Cons c cs)
  show ?case
  proof (cases "map_of fs (pre @ [c])")
    case None
    with Cons.prems have m: "mkdirs ((pre @ [c], Dir) # fs) (pre @ [c]) cs = Inr fs'" by simp
    from Cons.prems(2) have "q \<noteq> pre @ [c]" by auto
    with Cons.IH [OF m] Cons.prems(2) show ?thesis by simp
  next
    case (Some n)
    with Cons.prems obtain m: "mkdirs fs (pre @ [c]) cs = Inr fs'"
      by (cases n) auto
    with Cons.IH [OF m] Cons.prems(2) show ?thesis by simp
  qed
qed

lemma mkdirs_is_dir:
  "mkdirs fs pre cs = Inr fs' \<Longrightarrow> is_dir fs pre \<Longrightarrow> is_dir fs' (pre @ cs)"
proof (induction cs arbitrary: fs pre)
  case Nil
  then show ?case by simp
next
  case (Cons c cs)
  show ?case
  proof (cases "map_of fs (pre @ [c])")
    case None
    with Cons.prems have m: "mkdirs ((pre @ [c], Dir) # fs) (pre @ [c]) cs = Inr fs'" by simp
    have "is_dir ((pre @ [c], Dir) # fs) (pre @ [c])" by (simp add: is_dir_def)
    from Cons.IH [OF m this] show ?thesis by simp
  next
    case (Some n)
    with Cons.prems obtain m: "mkdirs fs (pre @ [c]) cs = Inr fs'" and n: "n = Dir"
      by (cases n) auto
    from Some n have "is_dir fs (pre @ [c])" by (simp add: is_dir_def)
    from Cons.IH [OF m this] show ?thesis by simp
  qed
qed

lemma mkdir_children: "mkdir fs d = Inr fs' \<Longrightarrow> set (children fs' d) = set (children fs d)"
proof -
  assume m: "mkdir fs d = Inr fs'"
  have "\<And>q. q \<noteq> [] \<Longrightarrow> butlast q = d \<Longrightarrow> map_of fs' q = map_of fs q"
  proof -
    fix q :: path assume "q \<noteq> []" "butlast q = d"
    then have "length q > length ([]::path) + length d" by (cases q rule: rev_cases) auto
    with m show "map_of fs' q = map_of fs q"
      unfolding mkdir_def by (rule mkdirs_map_of)
  qed
  then show ?thesis unfolding children_set by auto
qed

lemma mkdir_is_dir: "mkdir fs d = Inr fs' \<Longrightarrow> is_dir fs' d"
  using mkdirs_is_dir [of fs "[]" d fs'] by (simp add: mkdir_def is_dir_def)

lemma well_formed_parent:
  assumes "well_formed fs" "map_of fs q \<noteq> None"
  shows "q \<noteq> [] \<and> is_dir fs (butlast q)"
proof -
  from assms(2) obtain n where "(q, n) \<in> set fs" by (auto dest: map_of_SomeD)
  with assms(1) show ?thesis by (auto simp: well_formed_def list_all_iff)
qed

lemma prepare_frames_dir_empty:
  assumes wf: "well_formed (files st)"
    and prep: "prepare_frames_dir frames_dir name st = (None, st1)"
  shows "children (files st1) frames_dir = [] \<and> is_dir (files st1) frames_dir \<and>
         trace st1 = trace st @ [Print_Generating name frames_dir]"
proof -
  define cleared where "cleared =
    (if exists_path (files st) frames_dir
     then (case iterdir (files st) frames_dir of
             Inl err \<Rightarrow> (Some err, files st)
           | Inr fl \<Rightarrow> unlink_all fl (files st))
     else (None, files st))"
  from prep obtain fs1 fs2 where c: "cleared = (None, fs1)" and m: "mkdir fs1 frames_dir = Inr fs2"
    and st1: "st1 = emit (Print_Generating name frames_dir) (st\<lparr>files := fs2\<rparr>)"
    unfolding prepare_frames_dir_def cleared_def [symmetric]
    by (auto split: prod.splits option.splits sum.splits)
  have "children fs1 frames_dir = []"
  proof (cases "exists_path (files st) frames_dir")
    case False
    with c have fs1: "fs1 = files st" by (simp add: cleared_def)
    have "\<And>q. q \<noteq> [] \<Longrightarrow> butlast q = frames_dir \<Longrightarrow> map_of (files st) q = None"
    proof (rule ccontr)
      fix q assume q: "q \<noteq> []" "butlast q = frames_dir" "map_of (files st) q \<noteq> None"
      from well_formed_parent [OF wf q(3)] q(2) have "is_dir (files st) frames_dir" by simp
      with False show False by (auto simp: is_dir_def exists_path_def)
    qed
    then show ?thesis unfolding fs1 children_empty_iff by blast
  next
    case True
    with c obtain fl where it: "iterdir (files st) frames_dir = Inr fl"
      and un: "unlink_all fl (files st) = (None, fs1)"
      by (auto simp: cleared_def split: sum.splits)
    from it have fl: "fl = children (files st) frames_dir"
      by (auto simp: iterdir_def split: if_splits)
    have "\<And>q. q \<noteq> [] \<Longrightarrow> butlast q = frames_dir \<Longrightarrow> map_of fs1 q = None"
    proof -
      fix q assume q: "q \<noteq> []" "butlast q = frames_dir"
      show "map_of fs1 q = None"
      proof (cases "map_of (files st) q")
        case None
        with unlink_all_map_of [OF un, of q] show ?thesis by simp
      next
        case (Some n)
        with q have "q \<in> set fl" unfolding fl children_set by simp
        with unlink_all_map_of [OF un, of q] show ?thesis by simp
      qed
    qed
    then show ?thesis unfolding children_empty_iff by blast
  qed
  with mkdir_children [OF m] have "children fs2 frames_dir = []" by simp
  moreover from mkdir_is_dir [OF m] have "is_dir fs2 frames_dir" .
  ultimately show ?thesis using st1 by simp
qed

lemma files_update_trace [simp]: "trace (st\<lparr>files := fs\<rparr>) = trace st"
  by simp

lemma frames_loop_other_files:
  "frames_loop pipeline prompt out_dir w h device i seeds st = (r, st') \<Longrightarrow>
   \<forall>j<length seeds. q \<noteq> out_dir @ [frame_name (i + j)] \<Longrightarrow>
   map_of (files st') q = map_of (files st) q"
proof (induction seeds arbitrary: i st)
  case Nil
  then show ?case by simp
next
  case (Cons s seeds)
  let ?pc = "Pipeline_Call (frame_prompt prompt i) w h 20 device s"
  let ?fp = "out_dir @ [frame_name i]"
  from Cons.prems(2) have q0: "q \<noteq> ?fp" by fastforce
  from Cons.prems(2) have qs: "\<forall>j<length seeds. q \<noteq> out_dir @ [frame_name (Suc i + j)]" by fastforce
  show ?case
  proof (cases "pipeline (frame_prompt prompt i) w h 20 device s")
    case None
    with Cons.prems(1) show ?thesis by (auto simp: Let_def)
  next
    case (Some img)
    show ?thesis
    proof (cases "write_file (files st) ?fp img")
      case (Inl err)
      with Some Cons.prems(1) show ?thesis by (auto simp: Let_def)
    next
      case (Inr fs')
      let ?st2 = "(emit (Image_Save ?fp) (emit ?pc st))\<lparr>files := fs'\<rparr>"
      from Some Inr Cons.prems(1)
      have "frames_loop pipeline prompt out_dir w h device (Suc i) seeds ?st2 = (r, st')"
        by (simp add: Let_def)
      from Cons.IH [OF this qs] have "map_of (files st') q = map_of fs' q" by simp
      with write_file_map_of [OF Inr, of q] q0 show ?thesis by simp
    qed
  qed
qed

lemma frames_loop_written:
  "frames_loop pipeline prompt out_dir w h device i seeds st = (None, st') \<Longrightarrow>
   j < length seeds \<Longrightarrow>
   \<exists>img. pipeline (frame_prompt prompt (i + j)) w h 20 device (seeds ! j) = Some img \<and>
         map_of (files st') (out_dir @ [frame_name (i + j)]) = Some (File img)"
proof (induction seeds arbitrary: i st j)
  case Nil
  then show ?case by simp
next
  case (Cons s seeds)
  let ?pc = "Pipeline_Call (frame_prompt prompt i) w h 20 device s"
  let ?fp = "out_dir @ [frame_name i]"
  from Cons.prems(1) obtain img where img: "pipeline (frame_prompt prompt i) w h 20 device s = Some img"
    by (cases "pipeline (frame_prompt prompt i) w h 20 device s") (auto simp: Let_def)
  with Cons.prems(1) obtain fs' where wr: "write_file (files st) ?fp img = Inr fs'"
    by (cases "write_file (files st) ?fp img") (auto simp: Let_def)
  let ?st2 = "(emit (Image_Save ?fp) (emit ?pc st))\<lparr>files := fs'\<rparr>"
  from img wr Cons.prems(1)
  have rec: "frames_loop pipeline prompt out_dir w h device (Suc i) seeds ?st2 = (None, st')"
    by (simp add: Let_def)
  show ?case
  proof (cases j)
    case 0
    have "\<forall>k<length seeds. ?fp \<noteq> out_dir @ [frame_name (Suc i + k)]" by simp
    from frames_loop_other_files [OF rec this]
    have "map_of (files st') ?fp = map_of fs' ?fp" by simp
    with write_file_map_of [OF wr, of ?fp] img 0 show ?thesis by simp
  next
    case (Suc j')
    with Cons.prems(2) have "j' < length seeds" by simp
    from Cons.IH [OF rec this] Suc show ?thesis by simp
  qed
qed

lemma make_frames_written:
  assumes "make_frames_for_prompt pipeline prompt out_dir n w h device None st = (None, st')"
    and "j < nat n"
  shows "\<exists>img. map_of (files st') (out_dir @ [frame_name j]) = Some (File img)"
proof -
  from assms(1) obtain fs1 where
    "frames_loop pipeline prompt out_dir w h device 0 (default_seeds n) (st\<lparr>files := fs1\<rparr>) = (None, st')"
    by (auto simp: make_frames_for_prompt_def split: sum.splits)
  from frames_loop_written [OF this, of j] assms(2) show ?thesis
    by (auto simp: length_default_seeds)
qed

lemma make_frames_children:
  assumes "make_frames_for_prompt pipeline prompt out_dir n w h device None st = (r, st')"
  shows "set (children (files st') out_dir) \<subseteq>
           set (children (files st) out_dir) \<union> (\<lambda>j. out_dir @ [frame_name j]) ` {..<nat n}"
proof (cases "mkdir (files st) out_dir")
  case (Inl err)
  with assms show ?thesis by (auto simp: make_frames_for_prompt_def)
next
  case (Inr fs1)
  with assms have
    fl: "frames_loop pipeline prompt out_dir w h device 0 (default_seeds n) (st\<lparr>files := fs1\<rparr>) = (r, st')"
    by (auto simp: make_frames_for_prompt_def)
  show ?thesis
  proof
    fix q assume q: "q \<in> set (children (files st') out_dir)"
    show "q \<in> set (children (files st) out_dir) \<union> (\<lambda>j. out_dir @ [frame_name j]) ` {..<nat n}"
    proof (cases "q \<in> (\<lambda>j. out_dir @ [frame_name j]) ` {..<nat n}")
      case True
      then show ?thesis by simp
    next
      case False
      then have "\<forall>j<length (default_seeds n). q \<noteq> out_dir @ [frame_name (0 + j)]"
        by (auto simp: length_default_seeds)
      from frames_loop_other_files [OF fl this] have "map_of (files st') q = map_of fs1 q" by simp
      with q have "q \<in> set (children fs1 out_dir)" unfolding children_set by simp
      with mkdir_children [OF Inr] show ?thesis by simp
    qed
  qed
qed

lemma distinct_frame_paths: "distinct (map (\<lambda>i. joinpath out_dir (frame_name i)) [0..<n])"
  by (simp add: distinct_map inj_on_def)

subsection \<open>The trace of a run\<close>


lemma prepare_frames_dir_trace:
  "prepare_frames_dir frames_dir name st = (r, st1) \<Longrightarrow>
   trace st1 = trace st @ (if r = None then [Print_Generating name frames_dir] else [])"
  by (auto simp: prepare_frames_dir_def split: prod.splits option.splits sum.splits if_splits)




lemma process_planet_limit:
  "process_planet e (a\<lparr>limit := n\<rparr>) pipe device out_base working planet st =
   process_planet e a pipe device out_base working planet st"
  by (simp add: process_planet_def assemble_step_def Let_def
      cong: prod.case_cong option.case_cong)

lemma planets_loop_limit:
  "planets_loop e (a\<lparr>limit := n\<rparr>) pipe device out_base working planets st =
   planets_loop e a pipe device out_base working planets st"
  by (induction planets arbitrary: st)
     (simp_all add: process_planet_limit cong: prod.case_cong option.case_cong)

lemma generate_videos_limit: "generate_videos e (a\<lparr>limit := n\<rparr>) st = generate_videos e a st"
  by (simp add: generate_videos_def planets_loop_limit Let_def
      cong: prod.case_cong option.case_cong sum.case_cong)

subsection \<open>Frame names of any length\<close>

lemma length_format_04d: "4 \<le> length (format_04d i)"
  by (simp add: format_04d_def)

lemma frame_name_digits:
  "\<exists>ds. frame_name i = py ''frame_'' @ ds @ py ''.png'' \<and> digits_value ds = i \<and>
        4 \<le> length ds \<and> (i < 10000 \<longrightarrow> length ds = 4)"
proof -
  have "i < 10000 \<longrightarrow> length (format_04d i) = 4" by (simp add: format_04d_digits)
  then show ?thesis
    by (intro exI [of _ "format_04d i"])
       (simp add: frame_name_def digits_value_format_04d length_format_04d)
qed

subsection \<open>Well-formed file systems\<close>

text \<open>
  Every step of the script keeps the file system well formed, provided the commands it
  runs do.
\<close>

lemma well_formed_iff:
  "well_formed fs \<longleftrightarrow> (\<forall>q. map_of fs q \<noteq> None \<longrightarrow> q \<noteq> [] \<and> is_dir fs (butlast q))"
proof
  assume wf: "well_formed fs"
  show "\<forall>q. map_of fs q \<noteq> None \<longrightarrow> q \<noteq> [] \<and> is_dir fs (butlast q)"
    using well_formed_parent [OF wf] by blast
next
  assume r: "\<forall>q. map_of fs q \<noteq> None \<longrightarrow> q \<noteq> [] \<and> is_dir fs (butlast q)"
  have "\<And>e. e \<in> set fs \<Longrightarrow> fst e \<noteq> [] \<and> is_dir fs (butlast (fst e))"
  proof -
    fix e assume "e \<in> set fs"
    then have "fst e \<in> fst ` set fs" by simp
    then have "map_of fs (fst e) \<noteq> None" by (simp add: map_of_eq_None_iff)
    with r show "fst e \<noteq> [] \<and> is_dir fs (butlast (fst e))" by blast
  qed
  then show "well_formed fs" by (simp add: well_formed_def list_all_iff)
qed

lemma well_formed_write_file:
  assumes wf: "well_formed fs" and w: "write_file fs p c = Inr fs'"
  shows "well_formed fs'"
proof -
  from w have p: "p \<noteq> []" "map_of fs p \<noteq> Some Dir" "is_dir fs (butlast p)"
    by (auto simp: write_file_def split: if_splits)
  note m = write_file_map_of [OF w]
  have d: "\<And>q. is_dir fs q \<Longrightarrow> is_dir fs' q"
    using p by (auto simp: is_dir_def m)
  show ?thesis
    unfolding well_formed_iff
  proof (intro allI impI)
    fix q assume q: "map_of fs' q \<noteq> None"
    show "q \<noteq> [] \<and> is_dir fs' (butlast q)"
    proof (cases "q = p")
      case True
      with p d show ?thesis by simp
    next
      case False
      with q m have "map_of fs q \<noteq> None" by simp
      with wf d show ?thesis unfolding well_formed_iff by blast
    qed
  qed
qed

lemma well_formed_unlink:
  assumes wf: "well_formed fs" and u: "unlink fs p = Inr fs'"
  shows "well_formed fs'"
proof -
  from u obtain c where p: "map_of fs p = Some (File c)"
    by (auto simp: unlink_def split: option.splits node.splits)
  note m = unlink_map_of [OF u]
  have d: "\<And>q. is_dir fs q \<Longrightarrow> is_dir fs' q"
    using p by (auto simp: is_dir_def m)
  show ?thesis
    unfolding well_formed_iff
  proof (intro allI impI)
    fix q assume "map_of fs' q \<noteq> None"
    with m have "map_of fs q \<noteq> None" by (auto split: if_splits)
    with wf d show "q \<noteq> [] \<and> is_dir fs' (butlast q)" unfolding well_formed_iff by blast
  qed
qed

lemma well_formed_unlink_all:
  "well_formed fs \<Longrightarrow> unlink_all ps fs = (r, fs') \<Longrightarrow> well_formed fs'"
proof (induction ps arbitrary: fs)
  case Nil
  then show ?case by simp
next
  case (Cons p ps)
  show ?case
  proof (cases "unlink fs p")
    case (Inl err)
    with Cons.prems show ?thesis by simp
  next
    case (Inr fs1)
    with Cons.prems have "unlink_all ps fs1 = (r, fs')" by simp
    from Cons.IH [OF well_formed_unlink [OF Cons.prems(1) Inr] this] show ?thesis .
  qed
qed

lemma well_formed_mkdirs:
  "well_formed fs \<Longrightarrow> is_dir fs pre \<Longrightarrow> mkdirs fs pre cs = Inr fs' \<Longrightarrow> well_formed fs'"
proof (induction cs arbitrary: fs pre)
  case Nil
  then show ?case by simp
next
  case (Cons c cs)
  show ?case
  proof (cases "map_of fs (pre @ [c])")
    case None
    let ?fs1 = "(pre @ [c], Dir) # fs"
    from None Cons.prems have m: "mkdirs ?fs1 (pre @ [c]) cs = Inr fs'" by simp
    have d: "\<And>q. is_dir fs q \<Longrightarrow> is_dir ?fs1 q" by (auto simp: is_dir_def)
    have "well_formed ?fs1"
      unfolding well_formed_iff
    proof (intro allI impI)
      fix q assume q: "map_of ?fs1 q \<noteq> None"
      show "q \<noteq> [] \<and> is_dir ?fs1 (butlast q)"
      proof (cases "q = pre @ [c]")
        case True
        with Cons.prems(2) d show ?thesis by simp
      next
        case False
        with q have "map_of fs q \<noteq> None" by simp
        with Cons.prems(1) d show ?thesis unfolding well_formed_iff by blast
      qed
    qed
    moreover have "is_dir ?fs1 (pre @ [c])" by (simp add: is_dir_def)
    ultimately show ?thesis using m Cons.IH by blast
  next
    case (Some n)
    with Cons.prems obtain m: "mkdirs fs (pre @ [c]) cs = Inr fs'" and n: "n = Dir"
      by (cases n) auto
    from Some n have "is_dir fs (pre @ [c])" by (simp add: is_dir_def)
    with Cons.prems(1) m Cons.IH show ?thesis by blast
  qed
qed

lemma well_formed_mkdir: "well_formed fs \<Longrightarrow> mkdir fs p = Inr fs' \<Longrightarrow> well_formed fs'"
  unfolding mkdir_def by (rule well_formed_mkdirs) (simp_all add: is_dir_def)

lemma well_formed_frames_loop:
  "well_formed (files st) \<Longrightarrow>
   frames_loop pipeline prompt out_dir w h device i seeds st = (r, st') \<Longrightarrow>
   well_formed (files st')"
proof (induction seeds arbitrary: i st)
  case Nil
  then show ?case by simp
next
  case (Cons s seeds)
  let ?pc = "Pipeline_Call (frame_prompt prompt i) w h 20 device s"
  let ?fp = "out_dir @ [frame_name i]"
  show ?case
  proof (cases "pipeline (frame_prompt prompt i) w h 20 device s")
    case None
    with Cons.prems show ?thesis by (auto simp: Let_def)
  next
    case (Some img)
    show ?thesis
    proof (cases "write_file (files st) ?fp img")
      case (Inl err)
      with Some Cons.prems show ?thesis by (auto simp: Let_def)
    next
      case (Inr fs')
      let ?st2 = "(emit (Image_Save ?fp) (emit ?pc st))\<lparr>files := fs'\<rparr>"
      from Some Inr Cons.prems(2)
      have "frames_loop pipeline prompt out_dir w h device (Suc i) seeds ?st2 = (r, st')"
        by (simp add: Let_def)
      moreover from well_formed_write_file [OF Cons.prems(1) Inr] have "well_formed (files ?st2)"
        by simp
      ultimately show ?thesis using Cons.IH by blast
    qed
  qed
qed

lemma well_formed_make_frames:
  assumes "well_formed (files st)"
    and "make_frames_for_prompt pipeline prompt out_dir n w h device seeds st = (r, st')"
  shows "well_formed (files st')"
proof (cases "mkdir (files st) out_dir")
  case (Inl err)
  with assms show ?thesis by (auto simp: make_frames_for_prompt_def)
next
  case (Inr fs1)
  with assms(2) have "frames_loop pipeline prompt out_dir w h device 0
      (case seeds of None \<Rightarrow> default_seeds n | Some ss \<Rightarrow> ss) (st\<lparr>files := fs1\<rparr>) = (r, st')"
    by (simp add: make_frames_for_prompt_def)
  moreover from well_formed_mkdir [OF assms(1) Inr] have "well_formed (files (st\<lparr>files := fs1\<rparr>))"
    by simp
  ultimately show ?thesis by (rule well_formed_frames_loop [rotated])
qed

lemma well_formed_prepare:
  assumes wf: "well_formed (files st)"
    and prep: "prepare_frames_dir frames_dir name st = (r, st1)"
  shows "well_formed (files st1)"
proof -
  define cleared where "cleared =
    (if exists_path (files st) frames_dir
     then (case iterdir (files st) frames_dir of
             Inl err \<Rightarrow> (Some err, files st)
           | Inr fl \<Rightarrow> unlink_all fl (files st))
     else (None, files st))"
  obtain c fs1 where c: "cleared = (c, fs1)" by fastforce
  have wf1: "well_formed fs1"
    using c wf well_formed_unlink_all
    by (auto simp: cleared_def split: if_splits sum.splits)
  from prep c have "files st1 = fs1 \<or> (\<exists>fs2. mkdir fs1 frames_dir = Inr fs2 \<and> files st1 = fs2)"
    unfolding prepare_frames_dir_def cleared_def [symmetric]
    by (auto split: option.splits sum.splits)
  with wf1 well_formed_mkdir show ?thesis by auto
qed

lemma well_formed_assemble_step:
  assumes cmds: "\<And>cmd fs. well_formed fs \<Longrightarrow> well_formed (snd (subprocess_run e cmd fs))"
    and wf: "well_formed (files st)"
  shows "well_formed (files (assemble_step e a out_base frames_dir name safe st))"
proof -
  let ?cmd = "ffmpeg_cmd frames_dir (out_mp4 out_base safe) (fps a)"
  have "files (assemble_step e a out_base frames_dir name safe st) =
        snd (subprocess_run e ?cmd (files st))"
    by (simp add: assemble_step_def assemble_video_def split: prod.splits)
  with cmds [OF wf] show ?thesis by simp
qed

lemma well_formed_process_planet:
  assumes cmds: "\<And>cmd fs. well_formed fs \<Longrightarrow> well_formed (snd (subprocess_run e cmd fs))"
    and wf: "well_formed (files st)"
    and run: "process_planet e a pipe device out_base working planet st = (r, st')"
  shows "well_formed (files st')"
proof -
  let ?name = "planet_name planet"
  let ?safe = "safe_name (str_isalnum e) ?name"
  let ?fd = "joinpath working ?safe"
  obtain p st1 where prep: "prepare_frames_dir ?fd ?name st = (p, st1)" by fastforce
  note wf1 = well_formed_prepare [OF wf prep]
  show ?thesis
  proof (cases p)
    case (Some err)
    with prep run wf1 show ?thesis by (auto simp: process_planet_def Let_def)
  next
    case None
    obtain g st2 where gen:
      "make_frames_for_prompt pipe (planet_prompt ?name) ?fd (frames a) (width a) (height a)
         device None st1 = (g, st2)" by fastforce
    note wf2 = well_formed_make_frames [OF wf1 gen]
    show ?thesis
    proof (cases g)
      case (Some err)
      with None prep gen run have "st' = emit (Print_Frame_Failed ?name) st2"
        by (auto simp: process_planet_def Let_def)
      with wf2 show ?thesis by simp
    next
      case g: None
      with None prep gen run have "st' = assemble_step e a out_base ?fd ?name ?safe st2"
        by (auto simp: process_planet_def Let_def)
      with well_formed_assemble_step [OF cmds wf2] show ?thesis by simp
    qed
  qed
qed

lemma well_formed_planets_loop:
  assumes cmds: "\<And>cmd fs. well_formed fs \<Longrightarrow> well_formed (snd (subprocess_run e cmd fs))"
  shows "well_formed (files st) \<Longrightarrow>
         planets_loop e a pipe device out_base working planets st = (r, st') \<Longrightarrow>
         well_formed (files st')"
proof (induction planets arbitrary: st)
  case Nil
  then show ?case by simp
next
  case (Cons planet rest)
  obtain p st1 where pp: "process_planet e a pipe device out_base working planet st = (p, st1)"
    by fastforce
  note wf1 = well_formed_process_planet [OF cmds Cons.prems(1) pp]
  show ?case
  proof (cases p)
    case (Some err)
    with pp Cons.prems(2) wf1 show ?thesis by auto
  next
    case None
    with pp Cons.prems(2) have "planets_loop e a pipe device out_base working rest st1 = (r, st')"
      by simp
    from Cons.IH [OF wf1 this] show ?thesis .
  qed
qed

lemma well_formed_loop_entry:
  assumes cmds: "\<And>cmd fs. well_formed fs \<Longrightarrow> well_formed (snd (subprocess_run e cmd fs))"
    and wf: "well_formed (files st)"
    and entry: "loop_entry e a st = Some (pipe, device, planets, st3)"
  shows "well_formed (files st3)"
proof -
  let ?st1 = "emit (From_Pretrained (model a))
      (emit Print_Loading_Model (emit (Print_Device (if cuda_is_available e then Cuda else Cpu)) st))"
  from entry obtain st2 fs3 where
    ens: "ensure_ffmpeg e ?st1 = (None, st2)" and mk: "mkdir (files st2) working_dir = Inr fs3"
    and st3: "st3 = st2\<lparr>files := fs3\<rparr>"
    unfolding loop_entry_def Let_def
    by (auto split: if_splits option.splits prod.splits sum.splits)
  have "files st2 = snd (subprocess_run e ffmpeg_version (files st))"
    using ens by (auto simp: ensure_ffmpeg_def split: prod.splits)
  with cmds [OF wf] have "well_formed (files st2)" by simp
  from well_formed_mkdir [OF this mk] st3 show ?thesis by simp
qed

subsection \<open>The records of the loop\<close>

lemma generate_videos_loop:
  assumes "loop_entry e a st = Some (pipe, device, planets, st3)"
  shows "generate_videos e a st =
     (case planets_loop e a pipe device (outdir a) working_dir planets st3 of
        (Some err, s) \<Rightarrow> (Some err, s)
      | (None, s) \<Rightarrow> (None, emit (Print_All_Done (outdir a)) s))"
  using assms unfolding loop_entry_def generate_videos_def Let_def
  by (auto split: if_splits option.splits prod.splits sum.splits)

lemma planets_loop_append:
  "planets_loop e a pipe device out_base working (pre @ post) st =
     (case planets_loop e a pipe device out_base working pre st of
        (Some err, s) \<Rightarrow> (Some err, s)
      | (None, s) \<Rightarrow> planets_loop e a pipe device out_base working post s)"
  by (induction pre arbitrary: st) (auto split: prod.splits option.splits)



lemma process_planet_clears_first:
  assumes wf: "well_formed (files st)"
    and names: "name = planet_name planet" "safe = safe_name (str_isalnum e) name"
      "frames_dir = joinpath working safe"
  shows "\<exists>p st1. prepare_frames_dir frames_dir name st = (p, st1) \<and>
          (p \<noteq> None \<longrightarrow>
             process_planet e a pipe device out_base working planet st = (p, st1) \<and>
             new_events st st1 = []) \<and>
          (p = None \<longrightarrow>
             iterdir (files st1) frames_dir = Inr [] \<and>
             new_events st st1 = [Print_Generating name frames_dir] \<and>
             (\<exists>g st2. make_frames_for_prompt pipe (planet_prompt name) frames_dir (frames a)
                          (width a) (height a) device None st1 = (g, st2) \<and>
                 set (children (files st2) frames_dir) \<subseteq>
                   (\<lambda>j. joinpath frames_dir (frame_name j)) ` {..<nat (frames a)} \<and>
                 (g = None \<longrightarrow>
                    set (children (files st2) frames_dir) =
                      (\<lambda>j. joinpath frames_dir (frame_name j)) ` {..<nat (frames a)}) \<and>
                 process_planet e a pipe device out_base working planet st =
                   (None, if g = None then assemble_step e a out_base frames_dir name safe st2
                          else emit (Print_Frame_Failed name) st2)))"
proof -
  obtain p st1 where prep: "prepare_frames_dir frames_dir name st = (p, st1)" by fastforce
  note t1 = prepare_frames_dir_trace [OF prep]
  show ?thesis
  proof (cases p)
    case (Some err)
    with prep names have "process_planet e a pipe device out_base working planet st = (p, st1)"
      by (simp add: process_planet_def Let_def)
    moreover from t1 Some have "new_events st st1 = []" by (simp add: new_events_def)
    ultimately show ?thesis using prep Some by auto
  next
    case None
    with prep have prep': "prepare_frames_dir frames_dir name st = (None, st1)" by simp
    from prepare_frames_dir_empty [OF wf prep']
    have empty: "children (files st1) frames_dir = []" and dir: "is_dir (files st1) frames_dir"
      by simp_all
    from dir have "exists_path (files st1) frames_dir" by (auto simp: is_dir_def exists_path_def)
    with empty dir have it: "iterdir (files st1) frames_dir = Inr []" by (simp add: iterdir_def)
    from t1 None have ne: "new_events st st1 = [Print_Generating name frames_dir]"
      by (simp add: new_events_def)
    obtain g st2 where gen:
      "make_frames_for_prompt pipe (planet_prompt name) frames_dir (frames a) (width a) (height a)
         device None st1 = (g, st2)" by fastforce
    from make_frames_children [OF gen] empty
    have sub: "set (children (files st2) frames_dir) \<subseteq>
        (\<lambda>j. joinpath frames_dir (frame_name j)) ` {..<nat (frames a)}"
      by simp
    have eq: "g = None \<longrightarrow> set (children (files st2) frames_dir) =
        (\<lambda>j. joinpath frames_dir (frame_name j)) ` {..<nat (frames a)}"
    proof
      assume "g = None"
      with gen have ok: "make_frames_for_prompt pipe (planet_prompt name) frames_dir (frames a)
          (width a) (height a) device None st1 = (None, st2)" by simp
      have "(\<lambda>j. joinpath frames_dir (frame_name j)) ` {..<nat (frames a)}
              \<subseteq> set (children (files st2) frames_dir)"
      proof
        fix q assume "q \<in> (\<lambda>j. joinpath frames_dir (frame_name j)) ` {..<nat (frames a)}"
        then obtain j where j: "j < nat (frames a)" "q = frames_dir @ [frame_name j]" by auto
        from make_frames_written [OF ok j(1)] j(2) show "q \<in> set (children (files st2) frames_dir)"
          unfolding children_set by auto
      qed
      with sub show "set (children (files st2) frames_dir) =
          (\<lambda>j. joinpath frames_dir (frame_name j)) ` {..<nat (frames a)}" by blast
    qed
    have pp: "process_planet e a pipe device out_base working planet st =
        (None, if g = None then assemble_step e a out_base frames_dir name safe st2
               else emit (Print_Frame_Failed name) st2)"
      using prep' gen names by (cases g) (simp_all add: process_planet_def Let_def)
    from prep' None it ne gen sub eq pp show ?thesis by blast
  qed
qed

section \<open>Concrete runs, evaluated\<close>

lemma py_eq_iff [simp]: "py s = py t \<longleftrightarrow> s = t"
  by (simp add: py_def inj_map_eq_map inj_on_def)

lemma py_empty_iff [simp]: "py s = [] \<longleftrightarrow> s = []" "[] = py s \<longleftrightarrow> s = []"
  by (auto simp: py_def)

lemma py_append [simp]: "py s @ py t = py (s @ t)"
  by (simp add: py_def)

lemmas fs_defs = mkdir_def write_file_def exists_path_def is_dir_def remove_entry_def
  unlink_def iterdir_def children_def

lemmas run_defs = generate_videos_def hf_token_def ensure_ffmpeg_def working_dir_def
  process_planet_def prepare_frames_dir_def make_frames_for_prompt_def default_seeds_def
  assemble_step_def assemble_video_def out_mp4_def joinpath_def Let_def

lemma safe_name_examples:
  "safe_name isalnum_ascii (py ''Kepler-10b'') = py ''Kepler-10b''"
  "safe_name isalnum_ascii (py ''??bad/name'') = py ''badname''"
  by (simp_all add: safe_name_def py_def isalnum_ascii_def strip_def replace_def isspace_def)

lemma demo_planet_names:
  "planet_name [py ''name'' \<mapsto> py ''Kepler-10b''] = py ''Kepler-10b''"
  "planet_name [py ''name'' \<mapsto> py ''??bad/name''] = py ''??bad/name''"
  by (simp_all add: planet_name_def)

lemma demo_run:
  "generate_videos demo_env demo_args demo_state =
     (None,
      \<lparr>files =
         [([py ''.cache_video_frames'', py ''badname'', frame_name 1], File 1007),
          ([py ''.cache_video_frames'', py ''badname'', frame_name 0], File 1000),
          ([py ''.cache_video_frames'', py ''badname''], Dir),
          ([py ''.cache_video_frames'', py ''Kepler-10b'', frame_name 1], File 1007),
          ([py ''.cache_video_frames'', py ''Kepler-10b'', frame_name 0], File 1000),
          ([py ''.cache_video_frames'', py ''Kepler-10b''], Dir),
          ([py ''.cache_video_frames''], Dir)],
       trace =
         [Print_Device Cpu, Print_Loading_Model,
          From_Pretrained (py ''runwayml/stable-diffusion-v1-5''),
          Run ffmpeg_version,
          Print_Generating (py ''Kepler-10b'') [py ''.cache_video_frames'', py ''Kepler-10b''],
          Pipeline_Call (frame_prompt (planet_prompt (py ''Kepler-10b'')) 0) 64 64 20 Cpu 1000,
          Image_Save [py ''.cache_video_frames'', py ''Kepler-10b'', frame_name 0],
          Pipeline_Call (frame_prompt (planet_prompt (py ''Kepler-10b'')) 1) 64 64 20 Cpu 1007,
          Image_Save [py ''.cache_video_frames'', py ''Kepler-10b'', frame_name 1],
          Print_Assembling [py ''out'', py ''Kepler-10b.mp4''],
          Run (ffmpeg_cmd [py ''.cache_video_frames'', py ''Kepler-10b'']
                 [py ''out'', py ''Kepler-10b.mp4''] 12),
          Print_Saved_Video [py ''out'', py ''Kepler-10b.mp4''],
          Print_Generating (py ''??bad/name'') [py ''.cache_video_frames'', py ''badname''],
          Pipeline_Call (frame_prompt (planet_prompt (py ''??bad/name'')) 0) 64 64 20 Cpu 1000,
          Image_Save [py ''.cache_video_frames'', py ''badname'', frame_name 0],
          Pipeline_Call (frame_prompt (planet_prompt (py ''??bad/name'')) 1) 64 64 20 Cpu 1007,
          Image_Save [py ''.cache_video_frames'', py ''badname'', frame_name 1],
          Print_Assembling [py ''out'', py ''badname.mp4''],
          Run (ffmpeg_cmd [py ''.cache_video_frames'', py ''badname''] [py ''out'', py ''badname.mp4''] 12),
          Print_Saved_Video [py ''out'', py ''badname.mp4''],
          Print_All_Done [py ''out'']]\<rparr>)"
  by (simp add: run_defs demo_env_def demo_args_def demo_state_def demo_catalog_def
      demo_pipeline_def fs_defs upt_rec numeral_2_eq_2 safe_name_examples demo_planet_names
      frame_name_not_empty emit_def)

lemma demo_state_simps: "trace demo_state = []" "files demo_state = []"
  by (simp_all add: demo_state_def)

lemma frame_name_examples:
  "frame_name 0 = py ''frame_0000.png''" "frame_name 1 = py ''frame_0001.png''"
  "frame_name 2 = py ''frame_0002.png''"
  by (simp_all add: frame_name_def format_04d_def str_nat.simps replicate_small py_def)

lemma frame_prompt_examples:
  "frame_prompt (py ''P'') 0 = py ''P, cinematic, ultra-detailed, wide shot, subtle camera movement, frame 1''"
  "frame_prompt (py ''P'') 1 = py ''P, cinematic, ultra-detailed, wide shot, subtle camera movement, frame 2''"
  by (simp_all add: frame_prompt_def str_nat.simps py_def)

lemma sampler_run:
  "make_frames_for_prompt demo_pipeline (py ''P'') [py ''d''] 2 64 64 Cpu None demo_state =
     (None,
      \<lparr>files = [([py ''d'', frame_name 1], File 1007), ([py ''d'', frame_name 0], File 1000),
                ([py ''d''], Dir)],
       trace = [Pipeline_Call (frame_prompt (py ''P'') 0) 64 64 20 Cpu 1000,
                Image_Save [py ''d'', frame_name 0],
                Pipeline_Call (frame_prompt (py ''P'') 1) 64 64 20 Cpu 1007,
                Image_Save [py ''d'', frame_name 1]]\<rparr>)"
  by (simp add: make_frames_for_prompt_def default_seeds_def demo_pipeline_def demo_state_def
      fs_defs emit_def upt_rec numeral_2_eq_2 Let_def)

lemma sampler_run_other:
  "make_frames_for_prompt demo_pipeline (py ''Q'') [py ''e''] 2 32 32 Cuda None demo_state =
     (None,
      \<lparr>files = [([py ''e'', frame_name 1], File 1007), ([py ''e'', frame_name 0], File 1000),
                ([py ''e''], Dir)],
       trace = [Pipeline_Call (frame_prompt (py ''Q'') 0) 32 32 20 Cuda 1000,
                Image_Save [py ''e'', frame_name 0],
                Pipeline_Call (frame_prompt (py ''Q'') 1) 32 32 20 Cuda 1007,
                Image_Save [py ''e'', frame_name 1]]\<rparr>)"
  by (simp add: make_frames_for_prompt_def default_seeds_def demo_pipeline_def demo_state_def
      fs_defs emit_def upt_rec numeral_2_eq_2 Let_def)


lemma no_ffmpeg_run:
  "generate_videos no_ffmpeg_env demo_args demo_state =
     (Some Ffmpeg_Not_Found,
      \<lparr>files = [],
       trace = [Print_Device Cpu, Print_Loading_Model,
                From_Pretrained (py ''runwayml/stable-diffusion-v1-5''), Run ffmpeg_version]\<rparr>)"
  by (simp add: generate_videos_def hf_token_def ensure_ffmpeg_def no_ffmpeg_env_def demo_env_def
      demo_args_def demo_state_def emit_def Let_def)






lemma stale_well_formed: "well_formed (files stale_state)"
  by (simp add: well_formed_def stale_state_def is_dir_def)






lemma stale_entry:
  "loop_entry demo_env demo_args stale_state =
     Some (demo_pipeline, Cpu, demo_catalog, stale_loop_state)"
  by (simp add: loop_entry_def hf_token_def ensure_ffmpeg_def working_dir_def demo_env_def
      demo_args_def stale_state_def stale_loop_state_def fs_defs emit_def Let_def)

lemma stale_loop_prepare:
  "prepare_frames_dir [py ''.cache_video_frames'', py ''Kepler-10b''] (py ''Kepler-10b'')
      stale_loop_state =
     (None,
      \<lparr>files = [([py ''.cache_video_frames'', py ''Kepler-10b''], Dir),
                ([py ''.cache_video_frames''], Dir)],
       trace = [Print_Device Cpu, Print_Loading_Model,
                From_Pretrained (py ''runwayml/stable-diffusion-v1-5''), Run ffmpeg_version,
                Print_Generating (py ''Kepler-10b'') [py ''.cache_video_frames'', py ''Kepler-10b'']]\<rparr>)"
  by (simp add: prepare_frames_dir_def stale_loop_state_def stale_state_def fs_defs emit_def)

lemma stale_loop_frames:
  "make_frames_for_prompt demo_pipeline (planet_prompt (py ''Kepler-10b''))
      [py ''.cache_video_frames'', py ''Kepler-10b''] 2 64 64 Cpu None
      \<lparr>files = [([py ''.cache_video_frames'', py ''Kepler-10b''], Dir),
                ([py ''.cache_video_frames''], Dir)],
       trace = [Print_Device Cpu, Print_Loading_Model,
                From_Pretrained (py ''runwayml/stable-diffusion-v1-5''), Run ffmpeg_version,
                Print_Generating (py ''Kepler-10b'') [py ''.cache_video_frames'', py ''Kepler-10b'']]\<rparr> =
     (None,
      \<lparr>files = [([py ''.cache_video_frames'', py ''Kepler-10b'', frame_name 1], File 1007),
                ([py ''.cache_video_frames'', py ''Kepler-10b'', frame_name 0], File 1000),
                ([py ''.cache_video_frames'', py ''Kepler-10b''], Dir),
                ([py ''.cache_video_frames''], Dir)],
       trace = [Print_Device Cpu, Print_Loading_Model,
                From_Pretrained (py ''runwayml/stable-diffusion-v1-5''), Run ffmpeg_version,
                Print_Generating (py ''Kepler-10b'') [py ''.cache_video_frames'', py ''Kepler-10b''],
                Pipeline_Call (frame_prompt (planet_prompt (py ''Kepler-10b'')) 0) 64 64 20 Cpu 1000,
                Image_Save [py ''.cache_video_frames'', py ''Kepler-10b'', frame_name 0],
                Pipeline_Call (frame_prompt (planet_prompt (py ''Kepler-10b'')) 1) 64 64 20 Cpu 1007,
                Image_Save [py ''.cache_video_frames'', py ''Kepler-10b'', frame_name 1]]\<rparr>)"
  by (simp add: make_frames_for_prompt_def default_seeds_def demo_pipeline_def
      fs_defs emit_def upt_rec numeral_2_eq_2 Let_def)

section \<open>The claims\<close>

subsection \<open>C1: a missing encoder\<close>

text \<open>
  Claim C1, as amended. If the encoder availability check fails (the probe
  \<^verbatim>\<open>ffmpeg -version\<close> raises whenever it is run), the run ends in an error before any
  per-record work: no record is attempted and no frame is generated or saved. The model
  is loaded before the check: a run that ends at the check has made one model-load attempt.
\<close>

theorem ffmpeg_missing_aborts:
  assumes probe: "\<And>fs. \<not> fst (subprocess_run e ffmpeg_version fs)"
    and run: "generate_videos e a st = (r, st')"
  shows "r \<noteq> None \<and>
         filter is_pipeline_call (new_events st st') = [] \<and>
         frames_saved (new_events st st') = [] \<and>
         attempted (new_events st st') = [] \<and>
         (r = Some Ffmpeg_Not_Found \<longrightarrow>
            filter is_model_load (new_events st st') = [From_Pretrained (model a)])"
proof -
  have ens: "\<And>s. ensure_ffmpeg e s =
      (Some Ffmpeg_Not_Found,
       emit (Run ffmpeg_version) (s\<lparr>files := snd (subprocess_run e ffmpeg_version (files s))\<rparr>))"
  proof -
    fix s :: state
    obtain ok fs' where sr: "subprocess_run e ffmpeg_version (files s) = (ok, fs')" by fastforce
    with probe [of "files s"] have "\<not> ok" by simp
    with sr show "ensure_ffmpeg e s =
      (Some Ffmpeg_Not_Found,
       emit (Run ffmpeg_version) (s\<lparr>files := snd (subprocess_run e ffmpeg_version (files s))\<rparr>))"
      by (simp add: ensure_ffmpeg_def)
  qed
  let ?pre = "[Print_Device (if cuda_is_available e then Cuda else Cpu), Print_Loading_Model,
               From_Pretrained (model a)]"
  from run have
    "(r = Some Diffusers_Not_Installed \<or> r = Some Token_Required) \<and> new_events st st' = [] \<or>
     (r = Some Model_Load_Error \<or> r = Some Data_Load_Error) \<and> new_events st st' = ?pre \<or>
     r = Some Ffmpeg_Not_Found \<and> new_events st st' = ?pre @ [Run ffmpeg_version]"
    unfolding generate_videos_def Let_def ens
    by (auto simp: new_events_def split: if_splits option.splits)
  then show ?thesis by auto
qed

text \<open>
  The example run without the encoder ends at the check, with no record attempted and one
  model-load attempt.
\<close>

theorem ffmpeg_missing_aborts_witness:
  "fst (generate_videos no_ffmpeg_env demo_args demo_state) = Some Ffmpeg_Not_Found \<and>
   filter is_pipeline_call
     (new_events demo_state (snd (generate_videos no_ffmpeg_env demo_args demo_state))) = [] \<and>
   attempted (new_events demo_state (snd (generate_videos no_ffmpeg_env demo_args demo_state))) = [] \<and>
   filter is_model_load
     (new_events demo_state (snd (generate_videos no_ffmpeg_env demo_args demo_state))) =
     [From_Pretrained (model demo_args)]"
proof -
  have probe: "\<And>fs. \<not> fst (subprocess_run no_ffmpeg_env ffmpeg_version fs)"
    by (simp add: no_ffmpeg_env_def)
  from ffmpeg_missing_aborts [OF probe no_ffmpeg_run] show ?thesis
    by (simp add: no_ffmpeg_run)
qed

text \<open>
  The claim as stated fails in that run: the probe fails and the model has been loaded.
\<close>

theorem model_loaded_before_ffmpeg_check:
  "\<not> fst (subprocess_run no_ffmpeg_env ffmpeg_version (files demo_state)) \<and>
   fst (generate_videos no_ffmpeg_env demo_args demo_state) = Some Ffmpeg_Not_Found \<and>
   length (filter is_model_load
     (new_events demo_state (snd (generate_videos no_ffmpeg_env demo_args demo_state)))) = 1"
proof -
  have "\<And>fs. \<not> fst (subprocess_run no_ffmpeg_env ffmpeg_version fs)"
    by (simp add: no_ffmpeg_env_def)
  then show ?thesis
    by (simp add: no_ffmpeg_run new_events_def demo_state_simps)
qed

subsection \<open>C2: the record cap\<close>

text \<open>
  Claim C2. The script parses \<^verbatim>\<open>--limit\<close> (line 149, "limit number of planets to process
  (0 = all)") and never reads it: \<open>generate_videos_limit\<close>. On the example catalog of two
  records with \<^verbatim>\<open>--limit 1\<close> both records are attempted, in file order, where the claim
  says one.
\<close>

theorem limit_not_applied:
  "limit demo_args = 1 \<and> length demo_catalog = 2 \<and>
   attempted (new_events demo_state (snd (generate_videos demo_env demo_args demo_state))) =
     [py ''Kepler-10b'', py ''??bad/name'']"
proof -
  have "limit demo_args = 1" by (simp add: demo_args_def)
  then show ?thesis
    by (simp add: demo_run demo_catalog_def new_events_def demo_state_simps)
qed

subsection \<open>C3: the example names\<close>

text \<open>
  Claim C3, as amended. For the record named \<^verbatim>\<open>??bad/name\<close> the sanitized identifier is
  \<^verbatim>\<open>badname\<close> (the disallowed characters are removed, nothing is put in their place), and
  for \<^verbatim>\<open>Kepler-10b\<close> it is \<^verbatim>\<open>Kepler-10b\<close>; the videos are named \<^verbatim>\<open>badname.mp4\<close> and
  \<^verbatim>\<open>Kepler-10b.mp4\<close> in the output directory. This holds for every \<^verbatim>\<open>str.isalnum\<close> that
  is Python's on ASCII.
\<close>

theorem sanitized_example_names:
  assumes ascii: "\<And>c. c < 128 \<Longrightarrow> isalnum c = isalnum_ascii c"
  shows "safe_name isalnum (py ''??bad/name'') = py ''badname'' \<and>
         safe_name isalnum (py ''Kepler-10b'') = py ''Kepler-10b'' \<and>
         out_mp4 out_base (safe_name isalnum (py ''??bad/name'')) = out_base @ [py ''badname.mp4''] \<and>
         out_mp4 out_base (safe_name isalnum (py ''Kepler-10b'')) = out_base @ [py ''Kepler-10b.mp4'']"
proof -
  have a: "safe_name isalnum (py ''??bad/name'') = py ''badname''"
    by (simp add: safe_name_def py_def ascii isalnum_ascii_def strip_def replace_def isspace_def)
  have b: "safe_name isalnum (py ''Kepler-10b'') = py ''Kepler-10b''"
    by (simp add: safe_name_def py_def ascii isalnum_ascii_def strip_def replace_def isspace_def)
  show ?thesis
    unfolding a b by (simp add: out_mp4_def joinpath_def)
qed

text \<open>
  The run of the example catalog saves \<^verbatim>\<open>out/Kepler-10b.mp4\<close> and \<^verbatim>\<open>out/badname.mp4\<close>.
\<close>

theorem sanitized_example_names_witness:
  "safe_name isalnum_ascii (py ''??bad/name'') = py ''badname'' \<and>
   safe_name isalnum_ascii (py ''Kepler-10b'') = py ''Kepler-10b'' \<and>
   out_mp4 [py ''out''] (safe_name isalnum_ascii (py ''??bad/name'')) = [py ''out'', py ''badname.mp4''] \<and>
   out_mp4 [py ''out''] (safe_name isalnum_ascii (py ''Kepler-10b'')) = [py ''out'', py ''Kepler-10b.mp4''] \<and>
   videos_saved (trace (snd (generate_videos demo_env demo_args demo_state))) =
     [[py ''out'', py ''Kepler-10b.mp4''], [py ''out'', py ''badname.mp4'']]"
  using sanitized_example_names [of isalnum_ascii "[py ''out'']"]
  by (simp add: demo_run out_mp4_def joinpath_def)

text \<open>
  The claim as stated fails on the example catalog: the identifier of \<^verbatim>\<open>??bad/name\<close> is not
  \<^verbatim>\<open>bad_name\<close>, and no video \<^verbatim>\<open>bad_name.mp4\<close> is saved.
\<close>

theorem bad_name_not_underscored:
  "map planet_name demo_catalog = [py ''Kepler-10b'', py ''??bad/name''] \<and>
   safe_name (str_isalnum demo_env) (py ''??bad/name'') = py ''badname'' \<and>
   py ''badname'' \<noteq> py ''bad_name'' \<and>
   [py ''out'', py ''bad_name.mp4''] \<notin>
     set (videos_saved (trace (snd (generate_videos demo_env demo_args demo_state))))"
proof -
  have "str_isalnum demo_env = isalnum_ascii" by (simp add: demo_env_def)
  then show ?thesis
    by (simp add: demo_run demo_catalog_def demo_planet_names safe_name_examples)
qed

subsection \<open>C4: default seeds\<close>

text \<open>
  Claim C4. With no seed list given, the seed of the frame at (0-based) index \<open>i\<close> is
  \<open>1000 + 7 * i\<close>: the seeds a call gave to the model are, in order, the first of that
  sequence, and all \<open>F\<close> of them when the call succeeds. So two successful calls with the
  same frame count and no seed list use the same seeds, whatever else differs.
\<close>

theorem default_seed_sequence:
  assumes run1: "make_frames_for_prompt pipeline1 prompt1 dir1 F w1 h1 device1 None st1 = (r1, st1')"
    and run2: "make_frames_for_prompt pipeline2 prompt2 dir2 F w2 h2 device2 None st2 = (r2, st2')"
  shows "(\<forall>i < length (seeds_used (new_events st1 st1')).
            seeds_used (new_events st1 st1') ! i = 1000 + 7 * int i) \<and>
         (r1 = None \<longrightarrow>
            seeds_used (new_events st1 st1') = map (\<lambda>i. 1000 + 7 * int i) [0..<nat F]) \<and>
         (r1 = None \<and> r2 = None \<longrightarrow>
            seeds_used (new_events st1 st1') = seeds_used (new_events st2 st2'))"
proof -
  have full: "default_seeds F = map (\<lambda>i. 1000 + 7 * int i) [0..<nat F]"
    by (simp add: default_seeds_def)
  from make_frames_events [OF run1] obtain k where
    k1: "k \<le> length (default_seeds F)" "seeds_used (new_events st1 st1') = take k (default_seeds F)"
      "r1 = None \<longrightarrow> k = length (default_seeds F)"
    by auto
  from make_frames_events [OF run2] obtain m where
    k2: "seeds_used (new_events st2 st2') = take m (default_seeds F)"
      "r2 = None \<longrightarrow> m = length (default_seeds F)"
    by auto
  have a: "\<forall>i < length (seeds_used (new_events st1 st1')).
            seeds_used (new_events st1 st1') ! i = 1000 + 7 * int i"
    using k1 by (simp add: default_seeds_nth)
  have b: "r1 = None \<longrightarrow> seeds_used (new_events st1 st1') = map (\<lambda>i. 1000 + 7 * int i) [0..<nat F]"
    using k1 full by auto
  have c: "r1 = None \<and> r2 = None \<longrightarrow>
            seeds_used (new_events st1 st1') = seeds_used (new_events st2 st2')"
    using k1 k2 by auto
  from a b c show ?thesis by blast
qed

text \<open>
  Two calls with two frames and no seed list, on different prompts, sizes and devices:
  both use the seeds 1000 and 1007.
\<close>

theorem default_seed_sequence_witness:
  "seeds_used (new_events demo_state
      (snd (make_frames_for_prompt demo_pipeline (py ''P'') [py ''d''] 2 64 64 Cpu None demo_state)))
     = [1000, 1007] \<and>
   seeds_used (new_events demo_state
      (snd (make_frames_for_prompt demo_pipeline (py ''Q'') [py ''e''] 2 32 32 Cuda None demo_state)))
     = [1000, 1007]"
  using default_seed_sequence [OF sampler_run sampler_run_other]
  by (simp add: sampler_run sampler_run_other new_events_def demo_state_simps)

subsection \<open>C5: frame files\<close>

text \<open>
  Claim C5, as amended. For every frame count \<open>F\<close> and no seed list, a successful call of
  the frame sampler saves exactly \<open>F\<close> frames (none when \<open>F\<close> is not positive), in index
  order, to \<^verbatim>\<open>frame_<index>.png\<close> in the output directory, for the indices \<open>0\<close> to
  \<open>F - 1\<close>: the paths are distinct, each is a file afterwards, and each name holds its index
  in decimal, zero-padded to at least four digits. For the indices below 10000 the index
  has exactly four digits, and the names are ordered as strings the way their indices are
  ordered as numbers.
\<close>

theorem frame_files_written:
  assumes run: "make_frames_for_prompt pipeline prompt out_dir F w h device None st = (None, st')"
  shows "frames_saved (new_events st st') = map (\<lambda>i. joinpath out_dir (frame_name i)) [0..<nat F] \<and>
         length (frames_saved (new_events st st')) = nat F \<and>
         distinct (frames_saved (new_events st st')) \<and>
         (\<forall>i<nat F. \<exists>img. map_of (files st') (joinpath out_dir (frame_name i)) = Some (File img)) \<and>
         (\<forall>i<nat F. \<exists>ds. frame_name i = py ''frame_'' @ ds @ py ''.png'' \<and> digits_value ds = i \<and>
                          4 \<le> length ds \<and> (i < 10000 \<longrightarrow> length ds = 4)) \<and>
         (\<forall>i<nat F. \<forall>j<nat F. i < 10000 \<and> j < 10000 \<longrightarrow>
                          (frame_name i < frame_name j \<longleftrightarrow> i < j))"
proof -
  from make_frames_events [OF run] have
    saved: "frames_saved (new_events st st') = map (\<lambda>i. joinpath out_dir (frame_name i)) [0..<nat F]"
    by (auto simp: length_default_seeds)
  have len: "length (frames_saved (new_events st st')) = nat F"
    unfolding saved by simp
  have dist: "distinct (frames_saved (new_events st st'))"
    unfolding saved by (rule distinct_frame_paths)
  have written: "\<forall>i<nat F. \<exists>img. map_of (files st') (joinpath out_dir (frame_name i)) = Some (File img)"
    using make_frames_written [OF run] by simp
  have digits: "\<forall>i<nat F. \<exists>ds. frame_name i = py ''frame_'' @ ds @ py ''.png'' \<and> digits_value ds = i \<and>
                          4 \<le> length ds \<and> (i < 10000 \<longrightarrow> length ds = 4)"
    using frame_name_digits by blast
  have order: "\<forall>i<nat F. \<forall>j<nat F. i < 10000 \<and> j < 10000 \<longrightarrow>
                          (frame_name i < frame_name j \<longleftrightarrow> i < j)"
    using frame_name_less by blast
  from saved len dist written digits order show ?thesis by blast
qed

text \<open>
  A call with two frames: \<^verbatim>\<open>frame_0000.png\<close> and \<^verbatim>\<open>frame_0001.png\<close> are saved, in that order.
\<close>

theorem frame_files_written_witness:
  "frames_saved (new_events demo_state
      (snd (make_frames_for_prompt demo_pipeline (py ''P'') [py ''d''] 2 64 64 Cpu None demo_state)))
     = [[py ''d'', py ''frame_0000.png''], [py ''d'', py ''frame_0001.png'']] \<and>
   map_of (files
      (snd (make_frames_for_prompt demo_pipeline (py ''P'') [py ''d''] 2 64 64 Cpu None demo_state)))
      [py ''d'', py ''frame_0001.png''] = Some (File 1007) \<and>
   frame_name 0 < frame_name 1"
  using frame_files_written [OF sampler_run]
  by (simp add: sampler_run new_events_def demo_state_simps frame_name_examples [symmetric])

text \<open>
  The claim as stated, for every frame count, fails from 10001 frames on: the frame at index
  10000 has a five-digit name, which sorts before the name of the frame at index 2000.
\<close>

theorem frame_names_beyond_four_digits:
  "frame_name 10000 = py ''frame_10000.png'' \<and> length (format_04d 10000) = 5 \<and>
   (2000::nat) < 10000 \<and> frame_name 10000 < frame_name 2000"
  by (simp add: frame_name_def format_04d_def str_nat.simps py_def)

subsection \<open>C6: failures of one record\<close>




subsection \<open>C7: sanitization is idempotent\<close>

text \<open>
  Claim C7. Name sanitization is idempotent: sanitizing an already sanitized name gives the
  same name, for every string and every \<^verbatim>\<open>str.isalnum\<close> that, like Python's, holds of no
  whitespace character.
\<close>

theorem safe_name_idempotent:
  assumes disj: "\<And>c. isalnum c \<Longrightarrow> \<not> isspace c"
  shows "safe_name isalnum (safe_name isalnum s) = safe_name isalnum s"
proof -
  let ?u = "safe_name isalnum s"
  have ch: "\<And>c. c \<in> set ?u \<Longrightarrow> c \<noteq> 32 \<and> (isalnum c \<or> c = 45 \<or> c = 95)"
    by (rule safe_name_chars)
  have keep: "filter (\<lambda>c. isalnum c \<or> c \<in> {32, 45, 95}) ?u = ?u"
    using ch by (intro filter_True) auto
  have nosp: "\<forall>c\<in>set ?u. \<not> isspace c"
    using ch disj not_isspace_45 not_isspace_95 by blast
  have no32: "32 \<notin> set ?u" using ch by blast
  have "safe_name isalnum ?u = replace 32 95 (strip ?u)"
    unfolding safe_name_def [of isalnum ?u] keep ..
  also have "\<dots> = ?u" using nosp no32 by (simp add: strip_id replace_id)
  finally show ?thesis .
qed

theorem safe_name_idempotent_witness:
  "safe_name isalnum_ascii (safe_name isalnum_ascii (py ''  HD 189733 b!  ''))
     = safe_name isalnum_ascii (py ''  HD 189733 b!  '')
   \<and> safe_name isalnum_ascii (py ''  HD 189733 b!  '') = py ''HD_189733_b''"
proof -
  have "safe_name isalnum_ascii (py ''  HD 189733 b!  '') = py ''HD_189733_b''"
    by (simp add: safe_name_def py_def isalnum_ascii_def strip_def replace_def isspace_def)
  with safe_name_idempotent [of isalnum_ascii "py ''  HD 189733 b!  ''", OF isalnum_ascii_not_space]
  show ?thesis by simp
qed

subsection \<open>C8: stale frames\<close>

text \<open>
  Claim C8. Take a run that starts in a well-formed file system, with commands that leave
  it well formed, and any record of the catalog that the run reaches. Processing the record
  begins with preparing its working directory (lines 115-120). If that raises, the run
  ends there and nothing is generated for the record. Otherwise the directory is an empty
  directory when frame generation begins: every file that was in it has been removed. So
  when the frame sampler returns, the directory holds frames of this call only, and after
  a successful call exactly its frames.
\<close>

theorem frames_dir_cleared:
  assumes wf: "well_formed (files st)"
    and cmds: "\<And>cmd fs. well_formed fs \<Longrightarrow> well_formed (snd (subprocess_run e cmd fs))"
    and entry: "loop_entry e a st = Some (pipe, device, pre @ planet # post, st3)"
    and reach: "planets_loop e a pipe device (outdir a) working_dir pre st3 = (None, sk)"
    and names: "name = planet_name planet" "safe = safe_name (str_isalnum e) name"
      "frames_dir = joinpath working_dir safe"
  shows "generate_videos e a st =
           (case planets_loop e a pipe device (outdir a) working_dir (planet # post) sk of
              (Some err, s) \<Rightarrow> (Some err, s)
            | (None, s) \<Rightarrow> (None, emit (Print_All_Done (outdir a)) s)) \<and>
         planets_loop e a pipe device (outdir a) working_dir (planet # post) sk =
           (case process_planet e a pipe device (outdir a) working_dir planet sk of
              (Some err, s) \<Rightarrow> (Some err, s)
            | (None, s) \<Rightarrow> planets_loop e a pipe device (outdir a) working_dir post s) \<and>
         (\<exists>p st1. prepare_frames_dir frames_dir name sk = (p, st1) \<and>
          (p \<noteq> None \<longrightarrow>
             process_planet e a pipe device (outdir a) working_dir planet sk = (p, st1) \<and>
             new_events sk st1 = []) \<and>
          (p = None \<longrightarrow>
             iterdir (files st1) frames_dir = Inr [] \<and>
             new_events sk st1 = [Print_Generating name frames_dir] \<and>
             (\<exists>g st2. make_frames_for_prompt pipe (planet_prompt name) frames_dir (frames a)
                          (width a) (height a) device None st1 = (g, st2) \<and>
                 set (children (files st2) frames_dir) \<subseteq>
                   (\<lambda>j. joinpath frames_dir (frame_name j)) ` {..<nat (frames a)} \<and>
                 (g = None \<longrightarrow>
                    set (children (files st2) frames_dir) =
                      (\<lambda>j. joinpath frames_dir (frame_name j)) ` {..<nat (frames a)}) \<and>
                 process_planet e a pipe device (outdir a) working_dir planet sk =
                   (None, if g = None then assemble_step e a (outdir a) frames_dir name safe st2
                          else emit (Print_Frame_Failed name) st2))))"
proof -
  have a: "generate_videos e a st =
           (case planets_loop e a pipe device (outdir a) working_dir (planet # post) sk of
              (Some err, s) \<Rightarrow> (Some err, s)
            | (None, s) \<Rightarrow> (None, emit (Print_All_Done (outdir a)) s))"
    unfolding generate_videos_loop [OF entry] planets_loop_append [of _ _ _ _ _ _ pre] reach
    by simp
  have b: "planets_loop e a pipe device (outdir a) working_dir (planet # post) sk =
           (case process_planet e a pipe device (outdir a) working_dir planet sk of
              (Some err, s) \<Rightarrow> (Some err, s)
            | (None, s) \<Rightarrow> planets_loop e a pipe device (outdir a) working_dir post s)"
    by simp
  from well_formed_loop_entry [OF cmds wf entry] have "well_formed (files st3)" .
  from well_formed_planets_loop [OF cmds this reach] have wfk: "well_formed (files sk)" .
  from a b process_planet_clears_first [OF wfk names, of a pipe device "outdir a"]
  show ?thesis by blast
qed

text \<open>
  The example run started in a file system where the working directory of \<^verbatim>\<open>Kepler-10b\<close>
  holds \<^verbatim>\<open>frame_0007.png\<close> of an earlier run: the directory is empty once prepared, and
  holds the two new frames and nothing else after the sampler.
\<close>

theorem frames_dir_cleared_witness:
  "map_of (files stale_state)
     [py ''.cache_video_frames'', py ''Kepler-10b'', py ''frame_0007.png''] = Some (File 7) \<and>
   loop_entry demo_env demo_args stale_state =
     Some (demo_pipeline, Cpu, demo_catalog, stale_loop_state) \<and>
   iterdir (files (snd (prepare_frames_dir [py ''.cache_video_frames'', py ''Kepler-10b'']
                          (py ''Kepler-10b'') stale_loop_state)))
     [py ''.cache_video_frames'', py ''Kepler-10b''] = Inr [] \<and>
   set (children (files (snd (make_frames_for_prompt demo_pipeline (planet_prompt (py ''Kepler-10b''))
          [py ''.cache_video_frames'', py ''Kepler-10b''] 2 64 64 Cpu None
          (snd (prepare_frames_dir [py ''.cache_video_frames'', py ''Kepler-10b'']
                  (py ''Kepler-10b'') stale_loop_state)))))
        [py ''.cache_video_frames'', py ''Kepler-10b'']) =
     {[py ''.cache_video_frames'', py ''Kepler-10b'', py ''frame_0000.png''],
      [py ''.cache_video_frames'', py ''Kepler-10b'', py ''frame_0001.png'']}"
proof -
  let ?planet = "[py ''name'' \<mapsto> py ''Kepler-10b'']"
  let ?post = "[[py ''name'' \<mapsto> py ''??bad/name'']]"
  let ?fd = "[py ''.cache_video_frames'', py ''Kepler-10b'']"
  have stale: "map_of (files stale_state)
     [py ''.cache_video_frames'', py ''Kepler-10b'', py ''frame_0007.png''] = Some (File 7)"
    by (simp add: stale_state_def)
  have cmds: "\<And>cmd fs. well_formed fs \<Longrightarrow> well_formed (snd (subprocess_run demo_env cmd fs))"
    by (simp add: demo_env_def)
  have entry: "loop_entry demo_env demo_args stale_state =
      Some (demo_pipeline, Cpu, [] @ ?planet # ?post, stale_loop_state)"
    using stale_entry by (simp add: demo_catalog_def)
  have reach: "planets_loop demo_env demo_args demo_pipeline Cpu (outdir demo_args) working_dir []
      stale_loop_state = (None, stale_loop_state)"
    by simp
  have n1: "py ''Kepler-10b'' = planet_name ?planet"
    by (simp add: demo_planet_names)
  have n2: "py ''Kepler-10b'' = safe_name (str_isalnum demo_env) (py ''Kepler-10b'')"
    by (simp add: demo_env_def safe_name_examples)
  have n3: "?fd = joinpath working_dir (py ''Kepler-10b'')"
    by (simp add: working_dir_def joinpath_def)
  have sizes: "frames demo_args = 2" "width demo_args = 64" "height demo_args = 64"
    by (simp_all add: demo_args_def)
  have img: "(\<lambda>j. [py ''.cache_video_frames'', py ''Kepler-10b'', frame_name j]) ` {..<2} =
     {[py ''.cache_video_frames'', py ''Kepler-10b'', py ''frame_0000.png''],
      [py ''.cache_video_frames'', py ''Kepler-10b'', py ''frame_0001.png'']}"
  proof -
    have "{..<2::nat} = {Suc 0, 0}" by (simp add: numeral_2_eq_2 lessThan_Suc)
    then show ?thesis
      by (simp add: frame_name_examples [unfolded One_nat_def] insert_commute)
  qed
  from frames_dir_cleared [OF stale_well_formed cmds entry reach n1 n2 n3] stale stale_entry
  show ?thesis
    by (simp add: stale_loop_prepare stale_loop_frames sizes img)
qed

subsection \<open>C9: frame prompts\<close>

text \<open>
  Claim C9, as amended. The prompt of the frame at (0-based) index \<open>i\<close> is the base prompt
  followed by the fixed suffix
  \<^verbatim>\<open>, cinematic, ultra-detailed, wide shot, subtle camera movement, frame\<close> and the number
  \<open>i + 1\<close>: frames are numbered from 1 in their prompts.
\<close>

theorem frame_prompt_numbering:
  assumes "make_frames_for_prompt pipeline prompt out_dir n w h device seeds st = (r, st')"
  shows "(\<forall>i<length (prompts_used (new_events st st')).
            prompts_used (new_events st st') ! i =
              prompt @ py '', cinematic, ultra-detailed, wide shot, subtle camera movement, frame ''
                @ str_nat (i + 1)) \<and>
         (r = None \<longrightarrow>
            length (prompts_used (new_events st st')) =
              (case seeds of None \<Rightarrow> nat n | Some ss \<Rightarrow> length ss))"
proof -
  from make_frames_events [OF assms] obtain k where
    k: "prompts_used (new_events st st') = map (frame_prompt prompt) [0..<k]"
       "r = None \<longrightarrow> k = length (case seeds of None \<Rightarrow> default_seeds n | Some ss \<Rightarrow> ss)"
    by blast
  have a: "\<forall>i<length (prompts_used (new_events st st')).
            prompts_used (new_events st st') ! i =
              prompt @ py '', cinematic, ultra-detailed, wide shot, subtle camera movement, frame ''
                @ str_nat (i + 1)"
    unfolding k(1) by (simp add: frame_prompt_def)
  have b: "r = None \<longrightarrow>
            length (prompts_used (new_events st st')) =
              (case seeds of None \<Rightarrow> nat n | Some ss \<Rightarrow> length ss)"
    using k by (auto simp: length_default_seeds split: option.splits)
  from a b show ?thesis by blast
qed

text \<open>
  A call with two frames: the prompts end in \<^verbatim>\<open>frame 1\<close> and \<^verbatim>\<open>frame 2\<close>.
\<close>

theorem frame_prompt_numbering_witness:
  "prompts_used (new_events demo_state
      (snd (make_frames_for_prompt demo_pipeline (py ''P'') [py ''d''] 2 64 64 Cpu None demo_state)))
     = [py ''P, cinematic, ultra-detailed, wide shot, subtle camera movement, frame 1'',
        py ''P, cinematic, ultra-detailed, wide shot, subtle camera movement, frame 2'']"
proof -
  have "prompts_used (new_events demo_state
      (snd (make_frames_for_prompt demo_pipeline (py ''P'') [py ''d''] 2 64 64 Cpu None demo_state)))
     = [frame_prompt (py ''P'') 0, frame_prompt (py ''P'') 1]"
    by (simp add: sampler_run new_events_def demo_state_simps)
  with frame_prompt_numbering [OF sampler_run] show ?thesis
    unfolding frame_prompt_examples by simp
qed

text \<open>
  The claim as stated fails at the first frame: at index 0 the prompt ends in
  \<^verbatim>\<open>frame 1\<close>, not in the index.
\<close>

theorem frame_prompt_names_next_index:
  "prompts_used (new_events demo_state
      (snd (make_frames_for_prompt demo_pipeline (py ''P'') [py ''d''] 2 64 64 Cpu None demo_state))) ! 0
     = py ''P, cinematic, ultra-detailed, wide shot, subtle camera movement, frame 1'' \<and>
   py ''P, cinematic, ultra-detailed, wide shot, subtle camera movement, frame 1'' \<noteq>
     py ''P'' @ py '', cinematic, ultra-detailed, wide shot, subtle camera movement, frame '' @ str_nat 0"
proof -
  have "py ''P, cinematic, ultra-detailed, wide shot, subtle camera movement, frame 1'' \<noteq>
     py ''P'' @ py '', cinematic, ultra-detailed, wide shot, subtle camera movement, frame '' @ str_nat 0"
    by (simp add: str_nat.simps py_def)
  then show ?thesis
    by (simp add: sampler_run new_events_def demo_state_simps frame_prompt_examples)
qed

subsection \<open>C10: explicit seeds\<close>



end
